theory Spec2Isabelle
  imports Complex_Main
begin

section \<open>JavaScript values as the service receives them\<close>

text \<open>
  A JavaScript number is a double: not-a-number, the two infinities, or a finite value.
  A finite double denotes a rational, and \<open>Fin\<close> carries that rational; every double is
  covered, so what holds for all of \<open>jsnum\<close> holds for all doubles. The sign of zero is
  not kept (no operation below depends on it). The one division of the service
  (\<open>radius / 1000\<close>) is rounded to the nearest double, as the language does.
\<close>

datatype jsnum = NaN | NegInf | Fin rat | PosInf

text \<open>
  The values a caller can hand to the service: what \<open>JSON.parse\<close> builds from a request
  body (null, booleans, numbers, strings, arrays, objects with their own properties in
  order), the numbers \<open>parseFloat\<close> and \<open>parseInt\<close> return (among them \<open>NaN\<close>), and
  \<open>undefined\<close>.
\<close>

datatype jsval =
    JUndefined
  | JNull
  | JBool bool
  | JNum jsnum
  | JStr string
  | JArr "jsval list"
  | JObj "(string \<times> jsval) list"

text \<open>
  What a call can throw: the language's \<open>TypeError\<close>, its \<open>RangeError\<close> (the call stack
  is exhausted), or an error of the h3-js library.
\<close>

datatype fault = TypeError | RangeError | H3Error string

text \<open>
  What the engine brings and this repository does not define is taken as a parameter:
  the numeric reading of a string, the printing of a number, and how many arrays nested
  in one another the call stack lets the engine convert to a string.
\<close>

record ecma =
  StringToNumber :: "string \<Rightarrow> jsnum"
  NumberToString :: "jsnum \<Rightarrow> string"
  StackLimit :: nat

subsection \<open>Number operations\<close>

text \<open>\<open>a < b\<close> on numbers: false as soon as one side is \<open>NaN\<close>.\<close>

fun num_lt :: "jsnum \<Rightarrow> jsnum \<Rightarrow> bool" where
  "num_lt NaN b = False"
| "num_lt a NaN = False"
| "num_lt (Fin a) (Fin b) = (a < b)"
| "num_lt NegInf NegInf = False"
| "num_lt NegInf b = True"
| "num_lt a NegInf = False"
| "num_lt PosInf b = False"
| "num_lt a PosInf = True"

text \<open>\<open>Number.isInteger\<close>: a finite number with no fractional part; no coercion.\<close>

fun Number_isInteger :: "jsval \<Rightarrow> bool" where
  "Number_isInteger (JNum (Fin q)) = (of_int \<lfloor>q\<rfloor> = q)"
| "Number_isInteger v = False"

fun Math_ceil :: "jsnum \<Rightarrow> jsnum" where
  "Math_ceil (Fin q) = Fin (of_int \<lceil>q\<rceil>)"
| "Math_ceil n = n"

fun Math_max :: "jsnum \<Rightarrow> jsnum \<Rightarrow> jsnum" where
  "Math_max NaN b = NaN"
| "Math_max a NaN = NaN"
| "Math_max a b = (if num_lt a b then b else a)"

fun Math_min :: "jsnum \<Rightarrow> jsnum \<Rightarrow> jsnum" where
  "Math_min NaN b = NaN"
| "Math_min a NaN = NaN"
| "Math_min a b = (if num_lt b a then b else a)"

text \<open>\<open>a + b\<close> and \<open>a - b\<close> on numbers.\<close>

fun num_add :: "jsnum \<Rightarrow> jsnum \<Rightarrow> jsnum" where
  "num_add NaN b = NaN"
| "num_add a NaN = NaN"
| "num_add (Fin a) (Fin b) = Fin (a + b)"
| "num_add PosInf NegInf = NaN"
| "num_add NegInf PosInf = NaN"
| "num_add PosInf b = PosInf"
| "num_add NegInf b = NegInf"
| "num_add a b = b"

fun num_neg :: "jsnum \<Rightarrow> jsnum" where
  "num_neg NaN = NaN"
| "num_neg NegInf = PosInf"
| "num_neg (Fin a) = Fin (- a)"
| "num_neg PosInf = NegInf"

definition num_sub :: "jsnum \<Rightarrow> jsnum \<Rightarrow> jsnum" where
  "num_sub a b = num_add a (num_neg b)"

text \<open>
  Rounding of a rational to the nearest double, ties to the even significand. \<open>ilog2 n\<close>
  is the integer part of the binary logarithm of an integer \<open>n \<ge> 1\<close>, and \<open>binade a\<close> the
  exponent of a positive \<open>a\<close>: the integer \<open>k\<close> with \<open>pow2 k \<le> a < pow2 (k + 1)\<close>. A double
  has 53 significant bits down to the exponent -1022 and the spacing \<open>pow2 (- 1074)\<close>
  below that, and what rounds to \<open>pow2 1024\<close> or beyond is an infinity.
\<close>

definition pow2 :: "int \<Rightarrow> rat" where
  "pow2 k = (if 0 \<le> k then 2 ^ nat k else 1 / 2 ^ nat (- k))"

function ilog2 :: "int \<Rightarrow> int" where
  "ilog2 n = (if n \<le> 1 then 0 else 1 + ilog2 (n div 2))"
  by pat_completeness auto
termination
  by (relation "measure nat") auto

declare ilog2.simps [simp del]

definition binade :: "rat \<Rightarrow> int" where
  "binade a = (if 1 \<le> a then ilog2 \<lfloor>a\<rfloor> else - (ilog2 (\<lceil>1 / a\<rceil> - 1) + 1))"

definition round_double :: "rat \<Rightarrow> jsnum" where
  "round_double q =
     (if q = 0 then Fin 0
      else
        (let a = \<bar>q\<bar>;
             u = pow2 (max (binade a) (- 1022) - 52);
             m = a / u;
             f = \<lfloor>m\<rfloor>;
             r = (if 1 / 2 < m - of_int f \<or> (m - of_int f = 1 / 2 \<and> odd f) then f + 1 else f);
             v = of_int r * u
         in if pow2 1024 \<le> v then (if q < 0 then NegInf else PosInf)
            else Fin (if q < 0 then - v else v)))"

text \<open>\<open>a / c\<close> for a finite literal \<open>c > 0\<close> (the service divides by 1000 only).\<close>

fun num_div_by :: "jsnum \<Rightarrow> rat \<Rightarrow> jsnum" where
  "num_div_by (Fin a) c = round_double (a / c)"
| "num_div_by n c = n"

subsection \<open>Coercion of a value to a number\<close>

text \<open>
  \<open>ToString\<close> of the language, with the number \<open>d\<close> of nested arrays the stack still
  allows. An array prints as its elements joined by commas, with \<open>undefined\<close> and \<open>null\<close>
  elements printed as nothing; each array inside an array takes stack, and when none is
  left the engine throws \<open>RangeError\<close>. An object built by \<open>JSON.parse\<close> has no callable
  property of its own: with an own \<open>toString\<close> property neither \<open>toString\<close> nor
  \<open>valueOf\<close> yields a primitive and the conversion throws \<open>TypeError\<close>; without one,
  \<open>Object.prototype.toString\<close> answers.
\<close>

fun ToString :: "ecma \<Rightarrow> nat \<Rightarrow> jsval \<Rightarrow> fault + string"
  and join :: "ecma \<Rightarrow> nat \<Rightarrow> jsval list \<Rightarrow> fault + string" where
  "ToString e d JUndefined = Inr ''undefined''"
| "ToString e d JNull = Inr ''null''"
| "ToString e d (JBool b) = Inr (if b then ''true'' else ''false'')"
| "ToString e d (JNum n) = Inr (NumberToString e n)"
| "ToString e d (JStr s) = Inr s"
| "ToString e d (JArr xs) = (case d of 0 \<Rightarrow> Inl RangeError | Suc d' \<Rightarrow> join e d' xs)"
| "ToString e d (JObj ps) =
     (if ''toString'' \<in> set (map fst ps) then Inl TypeError else Inr ''[object Object]'')"
| "join e d [] = Inr []"
| "join e d (x # xs) =
     (case (if x = JUndefined \<or> x = JNull then Inr [] else ToString e d x) of
        Inl f \<Rightarrow> Inl f
      | Inr s \<Rightarrow>
         (if xs = [] then Inr s
          else (case join e d xs of Inl f \<Rightarrow> Inl f | Inr t \<Rightarrow> Inr (s @ '','' @ t))))"

text \<open>\<open>ToNumber\<close>: arrays and objects go through their string form.\<close>

fun ToNumber :: "ecma \<Rightarrow> jsval \<Rightarrow> fault + jsnum" where
  "ToNumber e JUndefined = Inr NaN"
| "ToNumber e JNull = Inr (Fin 0)"
| "ToNumber e (JBool b) = Inr (Fin (if b then 1 else 0))"
| "ToNumber e (JNum n) = Inr n"
| "ToNumber e (JStr s) = Inr (StringToNumber e s)"
| "ToNumber e v =
     (case ToString e (StackLimit e) v of
        Inl f \<Rightarrow> Inl f
      | Inr s \<Rightarrow> Inr (StringToNumber e s))"

text \<open>\<open>v < c\<close> and \<open>v > c\<close> against a number literal \<open>c\<close>: the value is coerced first.\<close>

definition js_lt :: "ecma \<Rightarrow> jsval \<Rightarrow> jsnum \<Rightarrow> fault + bool" where
  "js_lt e v c = (case ToNumber e v of Inl f \<Rightarrow> Inl f | Inr n \<Rightarrow> Inr (num_lt n c))"

definition js_gt :: "ecma \<Rightarrow> jsval \<Rightarrow> jsnum \<Rightarrow> fault + bool" where
  "js_gt e v c = (case ToNumber e v of Inl f \<Rightarrow> Inl f | Inr n \<Rightarrow> Inr (num_lt c n))"

text \<open>\<open>a || b\<close>: the right operand is evaluated only when the left one is false.\<close>

definition js_or :: "fault + bool \<Rightarrow> fault + bool \<Rightarrow> fault + bool" where
  "js_or a b = (case a of Inl f \<Rightarrow> Inl f | Inr True \<Rightarrow> Inr True | Inr False \<Rightarrow> b)"

section \<open>Validation\<close>

record ValidationResult =
  isValid :: bool
  error :: "string option"

definition valid :: ValidationResult where
  "valid = \<lparr>isValid = True, error = None\<rparr>"

definition invalid :: "string \<Rightarrow> ValidationResult" where
  "invalid msg = \<lparr>isValid = False, error = Some msg\<rparr>"

definition validateCoordinates :: "ecma \<Rightarrow> jsval \<Rightarrow> jsval \<Rightarrow> fault + ValidationResult" where
  "validateCoordinates e lat lng =
     (case js_or (js_lt e lat (Fin (- 90)))
            (js_or (js_gt e lat (Fin 90))
              (js_or (js_lt e lng (Fin (- 180))) (js_gt e lng (Fin 180)))) of
        Inl f \<Rightarrow> Inl f
      | Inr c \<Rightarrow>
          (if c then
             Inr (invalid ''Latitude must be between -90 and 90, longitude between -180 and 180'')
           else Inr valid))"

definition validateResolution :: "ecma \<Rightarrow> jsval \<Rightarrow> fault + ValidationResult" where
  "validateResolution e resolution =
     (case js_or (js_lt e resolution (Fin 0))
            (js_or (js_gt e resolution (Fin 15)) (Inr (\<not> Number_isInteger resolution))) of
        Inl f \<Rightarrow> Inl f
      | Inr c \<Rightarrow>
          (if c then Inr (invalid ''Resolution must be an integer between 0 and 15'')
           else Inr valid))"

definition validateKValue :: "ecma \<Rightarrow> jsval \<Rightarrow> fault + ValidationResult" where
  "validateKValue e k =
     (case js_or (js_lt e k (Fin 1))
            (js_or (js_gt e k (Fin 10)) (Inr (\<not> Number_isInteger k))) of
        Inl f \<Rightarrow> Inl f
      | Inr c \<Rightarrow>
          (if c then Inr (invalid ''k must be an integer between 1 and 10'')
           else Inr valid))"

text \<open>The loop over the vertices of \<open>validatePolygon\<close>: the first failing vertex returns.\<close>

fun validatePolygon_loop :: "ecma \<Rightarrow> jsval list \<Rightarrow> fault + ValidationResult" where
  "validatePolygon_loop e [] = Inr valid"
| "validatePolygon_loop e (coord # rest) =
     (case coord of
        JArr c \<Rightarrow>
          (if length c \<noteq> 2 then
             Inr (invalid ''Each polygon coordinate must be a [lat, lng] array'')
           else
             (case validateCoordinates e (c ! 0) (c ! 1) of
                Inl f \<Rightarrow> Inl f
              | Inr coordValidation \<Rightarrow>
                  (if \<not> isValid coordValidation then Inr coordValidation
                   else validatePolygon_loop e rest)))
      | _ \<Rightarrow> Inr (invalid ''Each polygon coordinate must be a [lat, lng] array''))"

definition validatePolygon :: "ecma \<Rightarrow> jsval \<Rightarrow> fault + ValidationResult" where
  "validatePolygon e polygon =
     (case polygon of
        JArr coords \<Rightarrow>
          (if length coords < 3 then
             Inr (invalid ''Polygon must be an array of at least 3 [lat, lng] coordinates'')
           else validatePolygon_loop e coords)
      | _ \<Rightarrow> Inr (invalid ''Polygon must be an array of at least 3 [lat, lng] coordinates''))"

section \<open>The h3-js library\<close>

text \<open>
  The service imports its grid functions from h3-js, which is not code of this repository:
  the library is a parameter of the model. A grid function either returns or throws; the
  cell test \<open>isValidCell\<close> answers for every argument.
\<close>

record h3 =
  latLngToCell :: "jsnum \<Rightarrow> jsnum \<Rightarrow> jsnum \<Rightarrow> fault + string"
  cellToLatLng :: "string \<Rightarrow> fault + (jsnum \<times> jsnum)"
  cellToBoundary :: "string \<Rightarrow> fault + (jsnum \<times> jsnum) list"
  gridDisk :: "string \<Rightarrow> jsnum \<Rightarrow> fault + string list"
  polygonToCells :: "jsval \<Rightarrow> jsnum \<Rightarrow> fault + string list"
  cellToChildren :: "string \<Rightarrow> jsnum \<Rightarrow> fault + string list"
  cellToParent :: "string \<Rightarrow> jsnum \<Rightarrow> fault + string"
  getResolution :: "string \<Rightarrow> fault + jsnum"
  isValidCell :: "string \<Rightarrow> bool"

definition validateCellHash :: "h3 \<Rightarrow> string \<Rightarrow> ValidationResult" where
  "validateCellHash h hash =
     (if \<not> isValidCell h hash then invalid ''The provided hash is not a valid H3 cell''
      else valid)"

section \<open>Responses\<close>

text \<open>
  The response types of \<open>types/index.ts\<close>. Several of them have fields of the same name
  (\<open>hash\<close>, \<open>resolution\<close>, \<open>zones\<close>, \<open>count\<close>); the fields of each record carry a short
  prefix to keep them apart.
\<close>

record Coordinates =
  lat :: jsnum
  lng :: jsnum

record NeighborInfo =
  ni_hash :: string
  ni_center :: Coordinates

record NeighborsResponse =
  nb_hash :: string
  nb_k :: jsnum
  nb_neighbors :: "NeighborInfo list"
  nb_count :: jsnum
  nb_resolution :: jsnum

record DetailedZoneInfo =
  dz_hash :: string
  dz_resolution :: jsnum
  dz_center :: Coordinates
  dz_boundary :: "Coordinates list"
  dz_neighbors :: "string list"
  dz_parent :: "string option"
  dz_children :: "string list"
  dz_childrenCount :: jsnum

record BoundingBox =
  minLat :: jsnum
  minLng :: jsnum
  maxLat :: jsnum
  maxLng :: jsnum

record ZonesInAreaResponse =
  za_boundingBox :: BoundingBox
  za_resolution :: jsnum
  za_zones :: "NeighborInfo list"
  za_count :: jsnum

record ZonesInRadiusResponse =
  zr_center :: Coordinates
  zr_radius :: jsnum
  zr_resolution :: jsnum
  zr_estimatedK :: jsnum
  zr_zones :: "NeighborInfo list"
  zr_count :: jsnum
  zr_note :: string

record ZonesInPolygonResponse =
  zp_polygon :: jsval
  zp_resolution :: jsnum
  zp_zones :: "NeighborInfo list"
  zp_count :: jsnum

section \<open>The service\<close>

text \<open>Sequencing of calls that may throw: the first fault ends the computation.\<close>

definition and_then :: "fault + 'a \<Rightarrow> ('a \<Rightarrow> fault + 'b) \<Rightarrow> fault + 'b" where
  "and_then m f = (case m of Inl x \<Rightarrow> Inl x | Inr v \<Rightarrow> f v)"

text \<open>\<open>xs.map(f)\<close> for a callback that may throw.\<close>

fun array_map :: "('a \<Rightarrow> fault + 'b) \<Rightarrow> 'a list \<Rightarrow> fault + 'b list" where
  "array_map f [] = Inr []"
| "array_map f (x # xs) =
     and_then (f x) (\<lambda>y. and_then (array_map f xs) (\<lambda>ys. Inr (y # ys)))"

text \<open>\<open>xs.length\<close> as a number.\<close>

definition array_length :: "'a list \<Rightarrow> jsnum" where
  "array_length xs = Fin (of_nat (length xs))"

definition formatCenter :: "jsnum \<times> jsnum \<Rightarrow> Coordinates" where
  "formatCenter center = \<lparr>lat = fst center, lng = snd center\<rparr>"

definition formatBoundary :: "(jsnum \<times> jsnum) list \<Rightarrow> Coordinates list" where
  "formatBoundary boundary = map (\<lambda>coord. \<lparr>lat = fst coord, lng = snd coord\<rparr>) boundary"

definition formatNeighborInfo :: "h3 \<Rightarrow> string \<Rightarrow> fault + NeighborInfo" where
  "formatNeighborInfo h hash =
     and_then (cellToLatLng h hash) (\<lambda>center.
       Inr \<lparr>ni_hash = hash, ni_center = formatCenter center\<rparr>)"

text \<open>\<open>getNeighbors(hash, k = 1)\<close>: an absent \<open>k\<close> is 1.\<close>

definition getNeighbors :: "h3 \<Rightarrow> string \<Rightarrow> jsnum option \<Rightarrow> fault + NeighborsResponse" where
  "getNeighbors h hash k_arg =
     (let k = (case k_arg of None \<Rightarrow> Fin 1 | Some v \<Rightarrow> v) in
      and_then (gridDisk h hash k) (\<lambda>neighbors.
      and_then (array_map (formatNeighborInfo h) neighbors) (\<lambda>infos.
      and_then (getResolution h hash) (\<lambda>resolution.
        Inr \<lparr>nb_hash = hash, nb_k = k, nb_neighbors = infos,
             nb_count = array_length neighbors, nb_resolution = resolution\<rparr>))))"

definition getDetailedZoneInfo :: "h3 \<Rightarrow> string \<Rightarrow> fault + DetailedZoneInfo" where
  "getDetailedZoneInfo h hash =
     and_then (cellToLatLng h hash) (\<lambda>center.
     and_then (cellToBoundary h hash) (\<lambda>boundary.
     and_then (getResolution h hash) (\<lambda>resolution.
     and_then (gridDisk h hash (Fin 1)) (\<lambda>disk.
     (let neighbors = filter (\<lambda>x. x \<noteq> hash) disk in
      and_then
        (if num_lt (Fin 0) resolution then
           and_then (cellToParent h hash (num_sub resolution (Fin 1))) (\<lambda>p. Inr (Some p))
         else Inr None) (\<lambda>parent.
      and_then
        (if num_lt resolution (Fin 15) then cellToChildren h hash (num_add resolution (Fin 1))
         else Inr []) (\<lambda>children.
        Inr \<lparr>dz_hash = hash, dz_resolution = resolution, dz_center = formatCenter center,
             dz_boundary = formatBoundary boundary, dz_neighbors = neighbors,
             dz_parent = parent, dz_children = take 10 children,
             dz_childrenCount = array_length children\<rparr>)))))))"

definition getZonesInArea :: "h3 \<Rightarrow> BoundingBox \<Rightarrow> jsnum \<Rightarrow> fault + ZonesInAreaResponse" where
  "getZonesInArea h boundingBox resolution =
     (let polygon =
        JArr [JArr [JNum (minLat boundingBox), JNum (minLng boundingBox)],
              JArr [JNum (minLat boundingBox), JNum (maxLng boundingBox)],
              JArr [JNum (maxLat boundingBox), JNum (maxLng boundingBox)],
              JArr [JNum (maxLat boundingBox), JNum (minLng boundingBox)],
              JArr [JNum (minLat boundingBox), JNum (minLng boundingBox)]] in
      and_then (polygonToCells h polygon resolution) (\<lambda>zones.
      and_then (array_map (formatNeighborInfo h) zones) (\<lambda>infos.
        Inr \<lparr>za_boundingBox = boundingBox, za_resolution = resolution, za_zones = infos,
             za_count = array_length zones\<rparr>)))"

definition getZonesInRadius ::
  "h3 \<Rightarrow> Coordinates \<Rightarrow> jsnum \<Rightarrow> jsnum \<Rightarrow> fault + ZonesInRadiusResponse" where
  "getZonesInRadius h center radius resolution =
     and_then (latLngToCell h (lat center) (lng center) resolution) (\<lambda>centerHash.
     (let k = Math_max (Fin 1) (Math_ceil (num_div_by radius 1000)) in
      and_then (gridDisk h centerHash (Math_min k (Fin 10))) (\<lambda>zones.
      and_then (array_map (formatNeighborInfo h) zones) (\<lambda>infos.
        Inr \<lparr>zr_center = center, zr_radius = radius, zr_resolution = resolution,
             zr_estimatedK = k, zr_zones = infos, zr_count = array_length zones,
             zr_note = ''This is an approximation. For precise radius filtering, calculate actual distances from center.''\<rparr>))))"

definition getZonesInPolygon :: "h3 \<Rightarrow> jsval \<Rightarrow> jsnum \<Rightarrow> fault + ZonesInPolygonResponse" where
  "getZonesInPolygon h polygon resolution =
     and_then (polygonToCells h polygon resolution) (\<lambda>zones.
     and_then (array_map (formatNeighborInfo h) zones) (\<lambda>infos.
       Inr \<lparr>zp_polygon = polygon, zp_resolution = resolution, zp_zones = infos,
            zp_count = array_length zones\<rparr>))"

section \<open>Notions used in the statements\<close>

text \<open>
  The ring the specification describes for a bounding box: the four corners in the order
  (minLat, minLng), (minLat, maxLng), (maxLat, maxLng), (maxLat, minLng), and the first
  corner once more.
\<close>

definition box_ring :: "BoundingBox \<Rightarrow> jsval" where
  "box_ring b =
     JArr (map (\<lambda>v. JArr [JNum (fst v), JNum (snd v)])
       [(minLat b, minLng b), (minLat b, maxLng b), (maxLat b, maxLng b),
        (maxLat b, minLng b), (minLat b, minLng b)])"

text \<open>What the loop of \<open>validatePolygon\<close> decides about one vertex, taken alone.\<close>

definition vertex_check :: "ecma \<Rightarrow> jsval \<Rightarrow> fault + ValidationResult" where
  "vertex_check e coord =
     (case coord of
        JArr c \<Rightarrow>
          (if length c \<noteq> 2 then
             Inr (invalid ''Each polygon coordinate must be a [lat, lng] array'')
           else validateCoordinates e (c ! 0) (c ! 1))
      | _ \<Rightarrow> Inr (invalid ''Each polygon coordinate must be a [lat, lng] array''))"

text \<open>
  A primitive: a number, a string, a boolean, \<open>null\<close> or \<open>undefined\<close>. The comparison
  operators read a primitive as a number without calling anything.
\<close>

fun primitive :: "jsval \<Rightarrow> bool" where
  "primitive (JArr xs) = False"
| "primitive (JObj ps) = False"
| "primitive v = True"

text \<open>A value in which every vertex that is a two-element array has primitive components.\<close>

fun primitive_components :: "jsval \<Rightarrow> bool" where
  "primitive_components (JArr vs) =
     list_all (\<lambda>v. case v of JArr c \<Rightarrow> length c = 2 \<longrightarrow> list_all primitive c | _ \<Rightarrow> True) vs"
| "primitive_components v = True"

text \<open>
  Coordinates as the specification has them: a latitude from -90 to 90 and a longitude
  from -180 to 180. \<open>NaN\<close> and the infinities are in no range.
\<close>

fun coordinate_valid :: "jsnum \<Rightarrow> jsnum \<Rightarrow> bool" where
  "coordinate_valid (Fin a) (Fin b) = (- 90 \<le> a \<and> a \<le> 90 \<and> - 180 \<le> b \<and> b \<le> 180)"
| "coordinate_valid la lo = False"

text \<open>
  Three kinds of vertex: a two-element array; a two-element array of numbers other than
  \<open>NaN\<close>; and a two-element array of numbers that are valid coordinates.
\<close>

fun pair_shaped :: "jsval \<Rightarrow> bool" where
  "pair_shaped (JArr c) = (length c = 2)"
| "pair_shaped v = False"

fun numeric_pair :: "jsval \<Rightarrow> bool" where
  "numeric_pair (JArr [JNum la, JNum lo]) = (la \<noteq> NaN \<and> lo \<noteq> NaN)"
| "numeric_pair v = False"

fun valid_pair :: "jsval \<Rightarrow> bool" where
  "valid_pair (JArr [JNum la, JNum lo]) = coordinate_valid la lo"
| "valid_pair v = False"

text \<open>A validation result is valid with no reason, or invalid with one reason.\<close>

definition well_formed :: "ValidationResult \<Rightarrow> bool" where
  "well_formed r = (if isValid r then error r = None else error r \<noteq> None)"

section \<open>A conversion pair and a library for the closed examples\<close>

text \<open>
  The closed examples below need some \<open>ecma\<close> and some \<open>h3\<close>. No example converts a
  string, prints a number or has an array as a component, so the fields of
  \<open>sample_ecma\<close> are never consulted. The answers of \<open>sample_h3\<close> record what it was
  asked: a disk of \<open>k\<close> has the origin and \<open>k\<close> further cells, a polygon fill has one
  cell for each vertex it was handed, a cell has twelve children, and the resolution of a
  cell is the length of its name.
\<close>

definition sample_ecma :: ecma where
  "sample_ecma =
     \<lparr>StringToNumber = (\<lambda>s. NaN), NumberToString = (\<lambda>n. ''NaN''), StackLimit = 1000\<rparr>"

definition sample_h3 :: h3 where
  "sample_h3 =
     \<lparr>latLngToCell = (\<lambda>la lo r. Inr ''c''),
      cellToLatLng = (\<lambda>s. Inr (Fin 0, Fin (of_nat (length s)))),
      cellToBoundary = (\<lambda>s. Inr []),
      gridDisk = (\<lambda>s k. case k of
                    Fin q \<Rightarrow> Inr (s # map (\<lambda>i. replicate (Suc i) CHR ''r'') [0..<nat \<lfloor>q\<rfloor>])
                  | _ \<Rightarrow> Inl (H3Error ''k'')),
      polygonToCells = (\<lambda>p r. case p of
                    JArr vs \<Rightarrow> Inr (map (\<lambda>i. replicate (Suc i) CHR ''v'') [0..<length vs])
                  | _ \<Rightarrow> Inl (H3Error ''polygon'')),
      cellToChildren = (\<lambda>s r. Inr (map (\<lambda>c. s @ [c]) ''0123456789ab'')),
      cellToParent = (\<lambda>s r. Inr (butlast s)),
      getResolution = (\<lambda>s. Inr (Fin (of_nat (length s)))),
      isValidCell = (\<lambda>s. length s \<le> 15)\<rparr>"

section \<open>Sequencing and mapping\<close>

lemma and_then_Inr [simp]: "and_then (Inr v) f = f v"
  by (simp add: and_then_def)

lemma and_then_Inl [simp]: "and_then (Inl x) f = Inl x"
  by (simp add: and_then_def)

lemma and_then_eq_Inr: "and_then m f = Inr r \<longleftrightarrow> (\<exists>v. m = Inr v \<and> f v = Inr r)"
  by (cases m) simp_all

lemma array_map_length: "array_map f xs = Inr ys \<Longrightarrow> length ys = length xs"
  by (induction xs arbitrary: ys) (auto simp: and_then_eq_Inr)

lemma formatNeighborInfo_hash: "formatNeighborInfo h c = Inr i \<Longrightarrow> ni_hash i = c"
  by (auto simp: formatNeighborInfo_def and_then_eq_Inr)

lemma array_map_hashes:
  "array_map (formatNeighborInfo h) cells = Inr infos \<Longrightarrow> map ni_hash infos = cells"
  by (induction cells arbitrary: infos)
     (auto simp: and_then_eq_Inr formatNeighborInfo_hash)

lemma getNeighbors_Inr:
  assumes "getNeighbors h hash k = Inr nb"
  shows "\<exists>cells res. gridDisk h hash (case k of None \<Rightarrow> Fin 1 | Some v \<Rightarrow> v) = Inr cells
           \<and> array_map (formatNeighborInfo h) cells = Inr (nb_neighbors nb)
           \<and> getResolution h hash = Inr res
           \<and> nb = \<lparr>nb_hash = hash, nb_k = (case k of None \<Rightarrow> Fin 1 | Some v \<Rightarrow> v),
                   nb_neighbors = nb_neighbors nb, nb_count = array_length cells,
                   nb_resolution = res\<rparr>"
  using assms by (auto simp: getNeighbors_def Let_def and_then_eq_Inr)

lemma getZonesInArea_Inr:
  assumes "getZonesInArea h b res = Inr r"
  shows "\<exists>cells. polygonToCells h (box_ring b) res = Inr cells
           \<and> array_map (formatNeighborInfo h) cells = Inr (za_zones r)
           \<and> r = \<lparr>za_boundingBox = b, za_resolution = res, za_zones = za_zones r,
                  za_count = array_length cells\<rparr>"
  using assms by (auto simp: getZonesInArea_def box_ring_def Let_def and_then_eq_Inr)

lemma getZonesInPolygon_Inr:
  assumes "getZonesInPolygon h p res = Inr r"
  shows "\<exists>cells. polygonToCells h p res = Inr cells
           \<and> array_map (formatNeighborInfo h) cells = Inr (zp_zones r)
           \<and> r = \<lparr>zp_polygon = p, zp_resolution = res, zp_zones = zp_zones r,
                  zp_count = array_length cells\<rparr>"
  using assms by (auto simp: getZonesInPolygon_def and_then_eq_Inr)

lemma getZonesInRadius_Inr:
  assumes "getZonesInRadius h c rad res = Inr r"
  shows "\<exists>centerHash cells.
           latLngToCell h (lat c) (lng c) res = Inr centerHash
           \<and> gridDisk h centerHash
                 (Math_min (Math_max (Fin 1) (Math_ceil (num_div_by rad 1000))) (Fin 10)) = Inr cells
           \<and> array_map (formatNeighborInfo h) cells = Inr (zr_zones r)
           \<and> r = \<lparr>zr_center = c, zr_radius = rad, zr_resolution = res,
                  zr_estimatedK = Math_max (Fin 1) (Math_ceil (num_div_by rad 1000)),
                  zr_zones = zr_zones r, zr_count = array_length cells,
                  zr_note = ''This is an approximation. For precise radius filtering, calculate actual distances from center.''\<rparr>"
  using assms by (auto simp: getZonesInRadius_def Let_def and_then_eq_Inr)

lemma getDetailedZoneInfo_Inr:
  assumes "getDetailedZoneInfo h hash = Inr d"
  shows "\<exists>center boundary res disk parent children.
           cellToLatLng h hash = Inr center
           \<and> cellToBoundary h hash = Inr boundary
           \<and> getResolution h hash = Inr res
           \<and> gridDisk h hash (Fin 1) = Inr disk
           \<and> (if num_lt (Fin 0) res then
                 and_then (cellToParent h hash (num_sub res (Fin 1))) (\<lambda>p. Inr (Some p))
               else Inr None) = Inr parent
           \<and> (if num_lt res (Fin 15) then cellToChildren h hash (num_add res (Fin 1))
               else Inr []) = Inr children
           \<and> d = \<lparr>dz_hash = hash, dz_resolution = res, dz_center = formatCenter center,
                  dz_boundary = formatBoundary boundary,
                  dz_neighbors = filter (\<lambda>x. x \<noteq> hash) disk,
                  dz_parent = parent, dz_children = take 10 children,
                  dz_childrenCount = array_length children\<rparr>"
  using assms unfolding getDetailedZoneInfo_def Let_def and_then_eq_Inr by blast



lemma num_sub_one: "0 < n \<Longrightarrow> num_sub (Fin (of_nat n)) (Fin 1) = Fin (of_nat (n - 1))"
  by (cases n) (simp_all add: num_sub_def)

lemma num_add_one: "num_add (Fin (of_nat n)) (Fin 1) = Fin (of_nat (n + 1))"
  by simp

section \<open>Rounding\<close>

text \<open>An integer of magnitude up to \<open>2\<^sup>5\<^sup>3\<close> is a double: rounding leaves it as it is.\<close>

lemma ilog2_bounds:
  "1 \<le> n \<Longrightarrow> 0 \<le> ilog2 n \<and> 2 ^ nat (ilog2 n) \<le> n \<and> n < 2 ^ nat (ilog2 n + 1)"
proof (induction n rule: ilog2.induct)
  case (1 n)
  show ?case
  proof (cases "n \<le> 1")
    case True
    with "1.prems" have "n = 1" by simp
    then show ?thesis by (simp add: ilog2.simps)
  next
    case False
    then have h: "1 \<le> n div 2" by simp
    define k where "k = ilog2 (n div 2)"
    from "1.IH" [OF False h] have k0: "0 \<le> k" and lo: "2 ^ nat k \<le> n div 2"
      and hi: "n div 2 < 2 ^ nat (k + 1)"
      by (simp_all add: k_def)
    have e: "ilog2 n = 1 + k"
      using False by (simp add: ilog2.simps [of n] k_def)
    have n1: "nat (1 + k) = Suc (nat k)" and n2: "nat (1 + k + 1) = Suc (Suc (nat k))"
      and n3: "nat (k + 1) = Suc (nat k)"
      using k0 by simp_all
    from lo have "2 ^ nat (1 + k) \<le> n" unfolding n1 by simp
    moreover from hi have "n < 2 ^ nat (1 + k + 1)" unfolding n2 n3 by simp
    ultimately show ?thesis using k0 unfolding e by simp
  qed
qed

lemma pow2_pos: "0 < pow2 k"
  by (simp add: pow2_def)

lemma round_double_magnitude:
  fixes x :: int
  assumes x1: "1 \<le> x" and x53: "x \<le> 2 ^ 53"
  defines "a \<equiv> rat_of_int x"
  defines "u \<equiv> pow2 (max (binade a) (- 1022) - 52)"
  shows "\<exists>k::int. a / u = of_int k" and "a < pow2 1024"
proof -
  define e where "e = ilog2 x"
  from ilog2_bounds [OF x1] have e0: "0 \<le> e" and lo: "2 ^ nat e \<le> x"
    by (simp_all add: e_def)
  have b: "binade a = e"
    using x1 by (simp add: binade_def a_def e_def)
  have e53: "e \<le> 53"
  proof (rule ccontr)
    assume "\<not> e \<le> 53"
    then have "54 \<le> nat e" by simp
    then have "(2::int) ^ 54 \<le> 2 ^ nat e" by (rule power_increasing) simp
    with lo x53 show False by simp
  qed
  show "a < pow2 1024"
  proof -
    have "rat_of_int x \<le> rat_of_int (2 ^ 53)" using x53 by (simp only: of_int_le_iff)
    also have "\<dots> = 2 ^ 53" by simp
    also have "\<dots> < (2::rat) ^ 1024" by (rule power_strict_increasing) simp_all
    finally show ?thesis by (simp add: pow2_def a_def)
  qed
  show "\<exists>k::int. a / u = of_int k"
  proof (cases "e \<le> 52")
    case True
    define d where "d = nat (52 - e)"
    have "max (binade a) (- 1022) - 52 = - int d"
      using True e0 by (simp add: b d_def)
    then have "u = 1 / 2 ^ d"
      by (simp add: u_def pow2_def)
    then have "a / u = of_int (x * 2 ^ d)"
      by (simp add: a_def)
    then show ?thesis ..
  next
    case False
    with e53 have e: "e = 53" by simp
    with lo x53 have x: "x = 2 ^ 53" by simp
    have "u = 2"
      using e0 by (simp add: u_def b e pow2_def)
    then have "a / u = of_int (2 ^ 52)"
      by (simp add: a_def x)
    then show ?thesis ..
  qed
qed

lemma round_double_of_int:
  assumes "\<bar>n\<bar> \<le> 2 ^ 53"
  shows "round_double (of_int n) = Fin (of_int n)"
proof (cases "n = 0")
  case True
  then show ?thesis by (simp add: round_double_def)
next
  case False
  define x where "x = \<bar>n\<bar>"
  define a where "a = rat_of_int x"
  define u where "u = pow2 (max (binade a) (- 1022) - 52)"
  have x1: "1 \<le> x" using False by (simp add: x_def)
  have x53: "x \<le> 2 ^ 53" using assms by (simp add: x_def)
  have abs: "\<bar>rat_of_int n\<bar> = a" by (simp add: x_def a_def)
  from round_double_magnitude [OF x1 x53] obtain k :: int
    where k: "a / u = of_int k" and small: "a < pow2 1024"
    unfolding a_def u_def by blast
  have u0: "u \<noteq> 0" using pow2_pos [of "max (binade a) (- 1022) - 52"] by (simp add: u_def)
  from k u0 have v: "of_int k * u = a" by (simp add: field_simps)
  have q0: "rat_of_int n \<noteq> 0" using False by simp
  have "round_double (of_int n) = Fin (if rat_of_int n < 0 then - a else a)"
    unfolding round_double_def abs Let_def u_def [symmetric] k
    using q0 small by (simp add: v)
  also have "(if rat_of_int n < 0 then - a else a) = of_int n"
    using abs by (simp add: abs_if split: if_splits)
  finally show ?thesis .
qed


lemma round_double_1: "round_double 1 = Fin 1"
  using round_double_of_int [of 1] by simp


text \<open>
  Where the quotient is no double it is rounded: the exact quotient of 140737488355329008
  by 1000 is 140737488355329.008, and the double nearest to it is 140737488355329.
\<close>

lemma num_div_by_rounds: "num_div_by (Fin 140737488355329008) 1000 = Fin 140737488355329"
  by code_simp

section \<open>When the library answers, the service returns\<close>

lemma formatNeighborInfo_answers:
  "(\<forall>x\<in>set cells. \<exists>p. cellToLatLng h x = Inr p) \<Longrightarrow>
     \<exists>infos. array_map (formatNeighborInfo h) cells = Inr infos"
proof (induction cells)
  case Nil
  show ?case by simp
next
  case (Cons x cells)
  then obtain p infos where p: "cellToLatLng h x = Inr p"
    and i: "array_map (formatNeighborInfo h) cells = Inr infos"
    by auto
  from p have "formatNeighborInfo h x = Inr \<lparr>ni_hash = x, ni_center = formatCenter p\<rparr>"
    by (simp add: formatNeighborInfo_def)
  with i show ?case by simp
qed

lemma getNeighbors_returns:
  assumes "gridDisk h hash (case k of None \<Rightarrow> Fin 1 | Some v \<Rightarrow> v) = Inr cells"
    and "array_map (formatNeighborInfo h) cells = Inr infos"
    and "getResolution h hash = Inr res"
  shows "getNeighbors h hash k =
     Inr \<lparr>nb_hash = hash, nb_k = (case k of None \<Rightarrow> Fin 1 | Some v \<Rightarrow> v),
          nb_neighbors = infos, nb_count = Fin (of_nat (length cells)), nb_resolution = res\<rparr>"
  using assms by (simp add: getNeighbors_def array_length_def)


lemma getDetailedZoneInfo_returns:
  assumes "cellToLatLng h hash = Inr center"
    and "cellToBoundary h hash = Inr boundary"
    and "getResolution h hash = Inr (Fin (of_nat n))"
    and "gridDisk h hash (Fin 1) = Inr disk"
    and "0 < n \<longrightarrow> cellToParent h hash (Fin (of_nat (n - 1))) = Inr p"
    and "n < 15 \<longrightarrow> cellToChildren h hash (Fin (of_nat (n + 1))) = Inr cs"
  shows "getDetailedZoneInfo h hash =
     Inr \<lparr>dz_hash = hash, dz_resolution = Fin (of_nat n), dz_center = formatCenter center,
          dz_boundary = formatBoundary boundary,
          dz_neighbors = filter (\<lambda>x. x \<noteq> hash) disk,
          dz_parent = (if 0 < n then Some p else None),
          dz_children = (if n < 15 then take 10 cs else []),
          dz_childrenCount = Fin (of_nat (if n < 15 then length cs else 0))\<rparr>"
proof -
  have par: "(if num_lt (Fin 0) (Fin (of_nat n)) then
           and_then (cellToParent h hash (num_sub (Fin (of_nat n)) (Fin 1))) (\<lambda>p. Inr (Some p))
         else Inr None) = Inr (if 0 < n then Some p else None)"
    using assms(5) by (simp add: num_sub_one)
  have chi: "(if num_lt (Fin (of_nat n)) (Fin 15) then
           cellToChildren h hash (num_add (Fin (of_nat n)) (Fin 1))
         else Inr []) = Inr (if n < 15 then cs else [])"
    using assms(6) unfolding num_add_one by simp
  show ?thesis
    unfolding getDetailedZoneInfo_def Let_def assms(1-4) and_then_Inr par chi
    by (simp add: array_length_def)
qed

section \<open>Validators: auxiliary facts\<close>

lemma valid_neq_invalid [simp]: "valid \<noteq> invalid msg" "invalid msg \<noteq> valid"
  by (simp_all add: valid_def invalid_def)

lemma js_lt_JNum [simp]: "js_lt e (JNum x) c = Inr (num_lt x c)"
  by (simp add: js_lt_def)

lemma js_gt_JNum [simp]: "js_gt e (JNum x) c = Inr (num_lt c x)"
  by (simp add: js_gt_def)

lemma js_or_Inr [simp]: "js_or (Inr a) b = (if a then Inr True else b)"
  by (simp add: js_or_def)

lemma js_or_Inl [simp]: "js_or (Inl f) b = Inl f"
  by (simp add: js_or_def)

lemma Number_isInteger_iff:
  "Number_isInteger r \<longleftrightarrow> (\<exists>n::int. r = JNum (Fin (of_int n)))"
  by (cases r rule: Number_isInteger.cases) auto

lemma validateResolution_num:
  "validateResolution e (JNum x) =
     Inr (if \<not> num_lt x (Fin 0) \<and> \<not> num_lt (Fin 15) x \<and> Number_isInteger (JNum x) then valid
          else invalid ''Resolution must be an integer between 0 and 15'')"
  by (simp add: validateResolution_def)

lemma validateResolution_valid_is_integer:
  assumes "validateResolution e r = Inr valid"
  shows "Number_isInteger r"
proof (rule ccontr)
  assume n: "\<not> Number_isInteger r"
  show False
  proof (cases "js_lt e r (Fin 0)")
    case (Inl f)
    with assms show False by (simp add: validateResolution_def)
  next
    case a: (Inr a)
    show False
    proof (cases "js_gt e r (Fin 15)")
      case (Inl f)
      with assms a show False by (simp add: validateResolution_def split: if_splits)
    next
      case (Inr b)
      with assms a n show False by (simp add: validateResolution_def split: if_splits)
    qed
  qed
qed

lemma half_not_int: "rat_of_int k \<noteq> 15 / 2"
proof
  assume "rat_of_int k = 15 / 2"
  then have "rat_of_int (2 * k) = rat_of_int 15" by simp
  then have "2 * k = 15" by (simp only: of_int_eq_iff)
  then show False by presburger
qed

lemma validateCoordinates_results:
  "validateCoordinates e a b = Inr r \<Longrightarrow>
     r = valid
     \<or> r = invalid ''Latitude must be between -90 and 90, longitude between -180 and 180''"
  by (auto simp: validateCoordinates_def split: sum.splits if_splits)

lemma vertex_check_results:
  "vertex_check e v = Inr r \<Longrightarrow>
     r = valid
     \<or> r = invalid ''Latitude must be between -90 and 90, longitude between -180 and 180''
     \<or> r = invalid ''Each polygon coordinate must be a [lat, lng] array''"
  by (auto simp: vertex_check_def split: jsval.splits if_splits
        dest: validateCoordinates_results)

lemma isValid_valid [simp]: "isValid valid" "\<not> isValid (invalid msg)"
  by (simp_all add: valid_def invalid_def)

lemma vertex_check_isValid: "vertex_check e v = Inr r \<Longrightarrow> isValid r \<longleftrightarrow> r = valid"
  by (auto dest: vertex_check_results)

lemma validatePolygon_loop_step:
  "validatePolygon_loop e (coord # rest) =
     (case vertex_check e coord of
        Inl f \<Rightarrow> Inl f
      | Inr r \<Rightarrow> if \<not> isValid r then Inr r else validatePolygon_loop e rest)"
  by (simp add: vertex_check_def split: jsval.splits)

lemma validatePolygon_loop_valid:
  "validatePolygon_loop e vs = Inr valid \<longleftrightarrow> list_all (\<lambda>v. vertex_check e v = Inr valid) vs"
proof (induction vs)
  case Nil
  show ?case by simp
next
  case (Cons v vs)
  show ?case
  proof (cases "vertex_check e v")
    case (Inl f)
    then show ?thesis by (simp add: validatePolygon_loop_step del: validatePolygon_loop.simps(2))
  next
    case (Inr r)
    with vertex_check_isValid [OF Inr] Cons.IH show ?thesis
      by (auto simp: validatePolygon_loop_step simp del: validatePolygon_loop.simps(2))
  qed
qed

lemma validatePolygon_loop_first_failure:
  "list_all (\<lambda>u. vertex_check e u = Inr valid) pre \<Longrightarrow> vertex_check e v \<noteq> Inr valid \<Longrightarrow>
     validatePolygon_loop e (pre @ v # post) = vertex_check e v"
proof (induction pre)
  case Nil
  show ?case
  proof (cases "vertex_check e v")
    case (Inl f)
    then show ?thesis by (simp add: validatePolygon_loop_step del: validatePolygon_loop.simps(2))
  next
    case (Inr r)
    with Nil.prems vertex_check_isValid [OF Inr] show ?thesis
      by (auto simp: validatePolygon_loop_step simp del: validatePolygon_loop.simps(2))
  qed
next
  case (Cons u pre)
  then show ?case by (simp add: validatePolygon_loop_step del: validatePolygon_loop.simps(2))
qed

lemma vertex_check_pair: "vertex_check e (JArr [la, lo]) = validateCoordinates e la lo"
  by (simp add: vertex_check_def)

lemma vertex_check_not_pair:
  "(\<nexists>la lo. v = JArr [la, lo]) \<Longrightarrow>
     vertex_check e v = Inr (invalid ''Each polygon coordinate must be a [lat, lng] array'')"
proof (cases v)
  case (JArr c)
  assume n: "\<nexists>la lo. v = JArr [la, lo]"
  have "length c \<noteq> 2"
  proof
    assume "length c = 2"
    then obtain la lo where "c = [la, lo]"
      by (cases c; cases "tl c") auto
    with JArr n show False by blast
  qed
  with JArr show ?thesis by (simp add: vertex_check_def)
qed (simp_all add: vertex_check_def)

lemma well_formed_results [simp]: "well_formed valid" "well_formed (invalid msg)"
  by (simp_all add: well_formed_def valid_def invalid_def)

lemma ToNumber_primitive: "primitive v \<Longrightarrow> \<exists>n. ToNumber e v = Inr n"
  by (cases v) simp_all

lemma js_lt_primitive: "primitive v \<Longrightarrow> \<exists>b. js_lt e v c = Inr b"
  using ToNumber_primitive [of v e] by (auto simp: js_lt_def)

lemma js_gt_primitive: "primitive v \<Longrightarrow> \<exists>b. js_gt e v c = Inr b"
  using ToNumber_primitive [of v e] by (auto simp: js_gt_def)

lemma validateCoordinates_primitive:
  assumes "primitive la" "primitive lo"
  shows "\<exists>r. validateCoordinates e la lo = Inr r \<and> well_formed r"
proof -
  from assms obtain b1 b2 b3 b4 where
    "js_lt e la (Fin (- 90)) = Inr b1" "js_gt e la (Fin 90) = Inr b2"
    "js_lt e lo (Fin (- 180)) = Inr b3" "js_gt e lo (Fin 180) = Inr b4"
    using js_lt_primitive js_gt_primitive by metis
  then show ?thesis
    by (simp add: validateCoordinates_def)
qed

lemma validateResolution_primitive:
  assumes "primitive v"
  shows "\<exists>r. validateResolution e v = Inr r \<and> well_formed r"
proof -
  from assms obtain b1 b2 where
    "js_lt e v (Fin 0) = Inr b1" "js_gt e v (Fin 15) = Inr b2"
    using js_lt_primitive js_gt_primitive by metis
  then show ?thesis
    by (simp add: validateResolution_def)
qed

lemma validateKValue_primitive:
  assumes "primitive v"
  shows "\<exists>r. validateKValue e v = Inr r \<and> well_formed r"
proof -
  from assms obtain b1 b2 where
    "js_lt e v (Fin 1) = Inr b1" "js_gt e v (Fin 10) = Inr b2"
    using js_lt_primitive js_gt_primitive by metis
  then show ?thesis
    by (simp add: validateKValue_def)
qed

lemma vertex_check_primitive:
  assumes "case v of JArr c \<Rightarrow> length c = 2 \<longrightarrow> list_all primitive c | _ \<Rightarrow> True"
  shows "\<exists>r. vertex_check e v = Inr r \<and> well_formed r"
proof (cases "\<exists>la lo. v = JArr [la, lo]")
  case True
  then obtain la lo where v: "v = JArr [la, lo]" by blast
  with assms have "primitive la" "primitive lo" by simp_all
  from validateCoordinates_primitive [OF this] show ?thesis
    unfolding v vertex_check_pair .
next
  case False
  then show ?thesis by (simp add: vertex_check_not_pair)
qed

lemma validatePolygon_loop_primitive:
  "list_all (\<lambda>v. case v of JArr c \<Rightarrow> length c = 2 \<longrightarrow> list_all primitive c | _ \<Rightarrow> True) vs \<Longrightarrow>
     \<exists>r. validatePolygon_loop e vs = Inr r \<and> well_formed r"
proof (induction vs)
  case Nil
  show ?case by simp
next
  case (Cons v vs)
  note step = validatePolygon_loop_step [of e v vs]
  from Cons.prems obtain r where r: "vertex_check e v = Inr r" and w: "well_formed r"
    using vertex_check_primitive [of v e] by auto
  show ?case
  proof (cases "isValid r")
    case True
    with r step have "validatePolygon_loop e (v # vs) = validatePolygon_loop e vs"
      by simp
    with Cons show ?thesis by simp
  next
    case False
    with r step have "validatePolygon_loop e (v # vs) = Inr r"
      by simp
    with w show ?thesis by simp
  qed
qed

lemma validateCoordinates_numbers:
  "validateCoordinates e (JNum la) (JNum lo) =
     Inr (if num_lt la (Fin (- 90)) \<or> num_lt (Fin 90) la
            \<or> num_lt lo (Fin (- 180)) \<or> num_lt (Fin 180) lo
          then invalid ''Latitude must be between -90 and 90, longitude between -180 and 180''
          else valid)"
  by (simp add: validateCoordinates_def)

lemma in_range_iff:
  "la \<noteq> NaN \<Longrightarrow> lo \<noteq> NaN \<Longrightarrow>
     \<not> (num_lt la (Fin (- 90)) \<or> num_lt (Fin 90) la
         \<or> num_lt lo (Fin (- 180)) \<or> num_lt (Fin 180) lo) \<longleftrightarrow> coordinate_valid la lo"
  by (cases la; cases lo) auto

lemma vertex_check_numeric:
  assumes "numeric_pair v"
  shows "vertex_check e v = Inr (if valid_pair v then valid else invalid ''Latitude must be between -90 and 90, longitude between -180 and 180'')"
proof -
  from assms obtain la lo where v: "v = JArr [JNum la, JNum lo]"
    and n: "la \<noteq> NaN" "lo \<noteq> NaN"
    by (cases v rule: numeric_pair.cases) simp_all
  show ?thesis
    unfolding v vertex_check_pair validateCoordinates_numbers
    using in_range_iff [OF n] by auto
qed

lemma valid_pair_numeric: "valid_pair v \<Longrightarrow> numeric_pair v"
proof (cases v rule: valid_pair.cases)
  case (1 la lo)
  assume "valid_pair v"
  with 1 show ?thesis by (cases la; cases lo) simp_all
qed simp_all

lemma vertex_check_valid_pair: "valid_pair v \<Longrightarrow> vertex_check e v = Inr valid"
  using vertex_check_numeric [OF valid_pair_numeric, of v e] by simp

lemma vertex_check_not_pair_shaped:
  "\<not> pair_shaped v \<Longrightarrow> vertex_check e v = Inr (invalid ''Each polygon coordinate must be a [lat, lng] array'')"
  by (cases v) (simp_all add: vertex_check_def)

lemma valid_pairs_pass:
  "list_all valid_pair vs \<Longrightarrow> list_all (\<lambda>u. vertex_check e u = Inr valid) vs"
  by (induction vs) (simp_all add: vertex_check_valid_pair)

lemma validatePolygon_loop_first_invalid:
  assumes "list_all valid_pair pre" and "vertex_check e v = Inr (invalid msg)"
  shows "validatePolygon_loop e (pre @ v # post) = Inr (invalid msg)"
  using validatePolygon_loop_first_failure [OF valid_pairs_pass [OF assms(1)], of e v post] assms(2)
  by simp

lemma first_failing_vertex:
  "\<not> list_all P vs \<Longrightarrow> \<exists>pre v post. vs = pre @ v # post \<and> list_all P pre \<and> \<not> P v"
proof (induction vs)
  case Nil
  then show ?case by simp
next
  case (Cons x xs)
  show ?case
  proof (cases "P x")
    case False
    then have "x # xs = [] @ x # xs \<and> list_all P [] \<and> \<not> P x" by simp
    then show ?thesis by blast
  next
    case True
    with Cons obtain pre v post where "xs = pre @ v # post" "list_all P pre" "\<not> P v"
      by auto
    with True have "x # xs = (x # pre) @ v # post \<and> list_all P (x # pre) \<and> \<not> P v"
      by simp
    then show ?thesis by blast
  qed
qed

lemma length_2_iff: "length c = 2 \<longleftrightarrow> (\<exists>y z. c = [y, z])"
  by (cases c; cases "tl c") auto

lemma primitive_vertex_iff:
  "(case v of JArr c \<Rightarrow> length c = 2 \<longrightarrow> list_all primitive c | _ \<Rightarrow> True) \<longleftrightarrow>
     (\<forall>y z. v = JArr [y, z] \<longrightarrow> primitive y \<and> primitive z)"
  by (cases v) (auto simp: length_2_iff)

lemma primitive_vertices_iff:
  "list_all (\<lambda>v. case v of JArr c \<Rightarrow> length c = 2 \<longrightarrow> list_all primitive c | _ \<Rightarrow> True) vs \<longleftrightarrow>
     (\<forall>y z. JArr [y, z] \<in> set vs \<longrightarrow> primitive y \<and> primitive z)"
proof (induction vs)
  case Nil
  show ?case by simp
next
  case (Cons v vs)
  have "list_all (\<lambda>v. case v of JArr c \<Rightarrow> length c = 2 \<longrightarrow> list_all primitive c | _ \<Rightarrow> True)
          (v # vs) \<longleftrightarrow>
        (\<forall>y z. v = JArr [y, z] \<longrightarrow> primitive y \<and> primitive z)
        \<and> (\<forall>y z. JArr [y, z] \<in> set vs \<longrightarrow> primitive y \<and> primitive z)"
    using Cons.IH primitive_vertex_iff [of v] by simp
  also have "\<dots> \<longleftrightarrow> (\<forall>y z. JArr [y, z] \<in> set (v # vs) \<longrightarrow> primitive y \<and> primitive z)"
    by auto
  finally show ?case .
qed


text \<open>Unfolding the service on the sample library.\<close>

lemmas sample_defs =
  sample_h3_def getNeighbors_def getZonesInArea_def getZonesInRadius_def
  getZonesInPolygon_def getDetailedZoneInfo_def formatNeighborInfo_def formatCenter_def
  formatBoundary_def array_length_def num_sub_def Let_def

section \<open>Counts\<close>

text \<open>
  C10. In every response that carries a list of zones, \<open>count\<close> is the length of that
  list: \<open>getNeighbors\<close> for its \<open>neighbors\<close>, and \<open>getZonesInArea\<close>,
  \<open>getZonesInRadius\<close> and \<open>getZonesInPolygon\<close> for their \<open>zones\<close>.
\<close>

theorem count_is_list_length:
  "(getNeighbors h hash k = Inr nb \<longrightarrow> nb_count nb = Fin (of_nat (length (nb_neighbors nb))))
   \<and> (getZonesInArea h b ra = Inr za \<longrightarrow> za_count za = Fin (of_nat (length (za_zones za))))
   \<and> (getZonesInRadius h c rad rr = Inr zr \<longrightarrow> zr_count zr = Fin (of_nat (length (zr_zones zr))))
   \<and> (getZonesInPolygon h p rp = Inr zp \<longrightarrow> zp_count zp = Fin (of_nat (length (zp_zones zp))))"
proof (intro conjI impI)
  assume "getNeighbors h hash k = Inr nb"
  from getNeighbors_Inr [OF this] obtain cells where
    m: "array_map (formatNeighborInfo h) cells = Inr (nb_neighbors nb)"
    and c: "nb_count nb = array_length cells"
    by (metis NeighborsResponse.select_convs(4))
  from array_map_length [OF m] c
  show "nb_count nb = Fin (of_nat (length (nb_neighbors nb)))"
    by (simp add: array_length_def)
next
  assume "getZonesInArea h b ra = Inr za"
  from getZonesInArea_Inr [OF this] obtain cells where
    m: "array_map (formatNeighborInfo h) cells = Inr (za_zones za)"
    and c: "za_count za = array_length cells"
    by (metis ZonesInAreaResponse.select_convs(4))
  from array_map_length [OF m] c
  show "za_count za = Fin (of_nat (length (za_zones za)))"
    by (simp add: array_length_def)
next
  assume "getZonesInRadius h c rad rr = Inr zr"
  from getZonesInRadius_Inr [OF this] obtain cells where
    m: "array_map (formatNeighborInfo h) cells = Inr (zr_zones zr)"
    and c: "zr_count zr = array_length cells"
    by (metis ZonesInRadiusResponse.select_convs(6))
  from array_map_length [OF m] c
  show "zr_count zr = Fin (of_nat (length (zr_zones zr)))"
    by (simp add: array_length_def)
next
  assume "getZonesInPolygon h p rp = Inr zp"
  from getZonesInPolygon_Inr [OF this] obtain cells where
    m: "array_map (formatNeighborInfo h) cells = Inr (zp_zones zp)"
    and c: "zp_count zp = array_length cells"
    by (metis ZonesInPolygonResponse.select_convs(4))
  from array_map_length [OF m] c
  show "zp_count zp = Fin (of_nat (length (zp_zones zp)))"
    by (simp add: array_length_def)
qed


text \<open>The four operations on the sample library: counts 2, 5, 2 and 3.\<close>

theorem count_is_list_length_witness:
  "\<exists>nb za zr zp.
     getNeighbors sample_h3 ''c'' (Some (Fin 1)) = Inr nb
     \<and> nb_count nb = Fin (of_nat (length (nb_neighbors nb))) \<and> nb_count nb = Fin 2
     \<and> getZonesInArea sample_h3
           \<lparr>minLat = Fin 0, minLng = Fin 0, maxLat = Fin 1, maxLng = Fin 1\<rparr> (Fin 9) = Inr za
     \<and> za_count za = Fin (of_nat (length (za_zones za))) \<and> za_count za = Fin 5
     \<and> getZonesInRadius sample_h3 \<lparr>lat = Fin 0, lng = Fin 0\<rparr> (Fin 1000) (Fin 9) = Inr zr
     \<and> zr_count zr = Fin (of_nat (length (zr_zones zr))) \<and> zr_count zr = Fin 2
     \<and> getZonesInPolygon sample_h3
           (JArr [JArr [JNum (Fin 0), JNum (Fin 0)], JArr [JNum (Fin 0), JNum (Fin 1)],
                  JArr [JNum (Fin 1), JNum (Fin 1)]]) (Fin 9) = Inr zp
     \<and> zp_count zp = Fin (of_nat (length (zp_zones zp))) \<and> zp_count zp = Fin 3"
proof -
  obtain nb where nb: "getNeighbors sample_h3 ''c'' (Some (Fin 1)) = Inr nb"
    and nb2: "nb_count nb = Fin 2"
    by (simp add: sample_defs)
  obtain za where za: "getZonesInArea sample_h3
           \<lparr>minLat = Fin 0, minLng = Fin 0, maxLat = Fin 1, maxLng = Fin 1\<rparr> (Fin 9) = Inr za"
    and za2: "za_count za = Fin 5"
    by (simp add: sample_defs)
  obtain zr where zr: "getZonesInRadius sample_h3 \<lparr>lat = Fin 0, lng = Fin 0\<rparr> (Fin 1000) (Fin 9) = Inr zr"
    and zr2: "zr_count zr = Fin 2"
    by (simp add: sample_defs round_double_1)
  obtain zp where zp: "getZonesInPolygon sample_h3
           (JArr [JArr [JNum (Fin 0), JNum (Fin 0)], JArr [JNum (Fin 0), JNum (Fin 1)],
                  JArr [JNum (Fin 1), JNum (Fin 1)]]) (Fin 9) = Inr zp"
    and zp2: "zp_count zp = Fin 3"
    by (simp add: sample_defs)
  from count_is_list_length [where h = sample_h3 and nb = nb and za = za and zr = zr and zp = zp]
    nb za zr zp nb2 za2 zr2 zp2
  show ?thesis by blast
qed

section \<open>Zones in a radius\<close>



section \<open>Zones in a bounding box and in a polygon\<close>

text \<open>
  C3. For every bounding box and resolution, \<open>getZonesInArea\<close> hands the polygon fill the
  five vertices (minLat, minLng), (minLat, maxLng), (maxLat, maxLng), (maxLat, minLng),
  (minLat, minLng) in this order: the zones of a response are the cells the fill returned
  for that ring, a fault of the fill on that ring is the fault of the call, and whenever
  the fill and the enrichment of its cells succeed the call returns the response, for
  every box, with no test on the box itself.
\<close>

theorem getZonesInArea_five_vertex_ring:
  "box_ring b =
     JArr [JArr [JNum (minLat b), JNum (minLng b)], JArr [JNum (minLat b), JNum (maxLng b)],
           JArr [JNum (maxLat b), JNum (maxLng b)], JArr [JNum (maxLat b), JNum (minLng b)],
           JArr [JNum (minLat b), JNum (minLng b)]]
   \<and> (\<forall>r. getZonesInArea h b res = Inr r \<longrightarrow>
         (\<exists>cells. polygonToCells h (box_ring b) res = Inr cells
            \<and> map ni_hash (za_zones r) = cells
            \<and> za_boundingBox r = b \<and> za_resolution r = res))
   \<and> (\<forall>cells infos.
         polygonToCells h (box_ring b) res = Inr cells
         \<and> array_map (formatNeighborInfo h) cells = Inr infos \<longrightarrow>
         getZonesInArea h b res =
           Inr \<lparr>za_boundingBox = b, za_resolution = res, za_zones = infos,
                za_count = Fin (of_nat (length cells))\<rparr>)
   \<and> (\<forall>f. polygonToCells h (box_ring b) res = Inl f \<longrightarrow> getZonesInArea h b res = Inl f)"
proof (intro conjI allI impI)
  show "box_ring b =
     JArr [JArr [JNum (minLat b), JNum (minLng b)], JArr [JNum (minLat b), JNum (maxLng b)],
           JArr [JNum (maxLat b), JNum (maxLng b)], JArr [JNum (maxLat b), JNum (minLng b)],
           JArr [JNum (minLat b), JNum (minLng b)]]"
    by (simp add: box_ring_def)
next
  fix r assume a: "getZonesInArea h b res = Inr r"
  from getZonesInArea_Inr [OF a] obtain cells where
    p: "polygonToCells h (box_ring b) res = Inr cells"
    and m: "array_map (formatNeighborInfo h) cells = Inr (za_zones r)"
    and r: "r = \<lparr>za_boundingBox = b, za_resolution = res, za_zones = za_zones r,
                  za_count = array_length cells\<rparr>"
    by blast
  have "za_boundingBox r = b" "za_resolution r = res"
    by (subst r, simp)+
  with p array_map_hashes [OF m]
  show "\<exists>cells. polygonToCells h (box_ring b) res = Inr cells
            \<and> map ni_hash (za_zones r) = cells
            \<and> za_boundingBox r = b \<and> za_resolution r = res"
    by blast
next
  fix cells infos
  assume "polygonToCells h (box_ring b) res = Inr cells
         \<and> array_map (formatNeighborInfo h) cells = Inr infos"
  then show "getZonesInArea h b res =
           Inr \<lparr>za_boundingBox = b, za_resolution = res, za_zones = infos,
                za_count = Fin (of_nat (length cells))\<rparr>"
    by (simp add: getZonesInArea_def box_ring_def array_length_def)
next
  fix f assume "polygonToCells h (box_ring b) res = Inl f"
  then show "getZonesInArea h b res = Inl f"
    by (simp add: getZonesInArea_def box_ring_def)
qed

text \<open>
  A box with min = max: the sample fill is handed five equal vertices and the call
  returns its five cells.
\<close>

theorem getZonesInArea_five_vertex_ring_witness:
  "\<exists>r. getZonesInArea sample_h3
          \<lparr>minLat = Fin 5, minLng = Fin 7, maxLat = Fin 5, maxLng = Fin 7\<rparr> (Fin 9) = Inr r
       \<and> polygonToCells sample_h3
           (JArr [JArr [JNum (Fin 5), JNum (Fin 7)], JArr [JNum (Fin 5), JNum (Fin 7)],
                  JArr [JNum (Fin 5), JNum (Fin 7)], JArr [JNum (Fin 5), JNum (Fin 7)],
                  JArr [JNum (Fin 5), JNum (Fin 7)]]) (Fin 9) = Inr (map ni_hash (za_zones r))
       \<and> length (za_zones r) = 5"
proof -
  let ?b = "\<lparr>minLat = Fin 5, minLng = Fin 7, maxLat = Fin 5, maxLng = Fin 7\<rparr>"
  note t = getZonesInArea_five_vertex_ring [of ?b sample_h3 "Fin 9"]
  obtain r where r: "getZonesInArea sample_h3 ?b (Fin 9) = Inr r"
    by (simp add: sample_defs upt_conv_Cons)
  with t obtain cells where
    c: "polygonToCells sample_h3 (box_ring ?b) (Fin 9) = Inr cells"
    and z: "map ni_hash (za_zones r) = cells"
    by blast
  from t have b: "box_ring ?b =
           JArr [JArr [JNum (Fin 5), JNum (Fin 7)], JArr [JNum (Fin 5), JNum (Fin 7)],
                  JArr [JNum (Fin 5), JNum (Fin 7)], JArr [JNum (Fin 5), JNum (Fin 7)],
                  JArr [JNum (Fin 5), JNum (Fin 7)]]"
    by simp
  from c have "length cells = 5"
    by (auto simp: b sample_h3_def)
  with z have "length (za_zones r) = 5"
    by (auto dest!: arg_cong [where f = length])
  with r c z b show ?thesis by auto
qed

text \<open>
  C7. For every polygon and resolution, \<open>getZonesInPolygon\<close> hands the polygon fill the
  caller's value as it is, and a response echoes that value in \<open>polygon\<close>: the zones are
  the cells the fill returned for it, a fault of the fill is the fault of the call, and
  success of the fill and of the enrichment gives the response. The bounding-box path
  differs: the ring it hands over is the four corners followed by the first corner again.
\<close>

theorem getZonesInPolygon_as_given:
  "(\<forall>r. getZonesInPolygon h p res = Inr r \<longrightarrow>
       zp_polygon r = p \<and> zp_resolution r = res
       \<and> (\<exists>cells. polygonToCells h p res = Inr cells \<and> map ni_hash (zp_zones r) = cells))
   \<and> (\<forall>cells infos.
         polygonToCells h p res = Inr cells
         \<and> array_map (formatNeighborInfo h) cells = Inr infos \<longrightarrow>
         getZonesInPolygon h p res =
           Inr \<lparr>zp_polygon = p, zp_resolution = res, zp_zones = infos,
                zp_count = Fin (of_nat (length cells))\<rparr>)
   \<and> (\<forall>f. polygonToCells h p res = Inl f \<longrightarrow> getZonesInPolygon h p res = Inl f)
   \<and> (\<forall>b r. getZonesInArea h b res = Inr r \<longrightarrow>
         (\<exists>corners cells.
            corners = [JArr [JNum (minLat b), JNum (minLng b)],
                       JArr [JNum (minLat b), JNum (maxLng b)],
                       JArr [JNum (maxLat b), JNum (maxLng b)],
                       JArr [JNum (maxLat b), JNum (minLng b)]]
            \<and> polygonToCells h (JArr (corners @ [hd corners])) res = Inr cells
            \<and> map ni_hash (za_zones r) = cells))"
proof (intro conjI allI impI)
  fix r assume a: "getZonesInPolygon h p res = Inr r"
  from getZonesInPolygon_Inr [OF a] obtain cells where
    p: "polygonToCells h p res = Inr cells"
    and m: "array_map (formatNeighborInfo h) cells = Inr (zp_zones r)"
    and r: "r = \<lparr>zp_polygon = p, zp_resolution = res, zp_zones = zp_zones r,
                  zp_count = array_length cells\<rparr>"
    by blast
  show "zp_polygon r = p" by (subst r) simp
  show "zp_resolution r = res" by (subst r) simp
  from p array_map_hashes [OF m]
  show "\<exists>cells. polygonToCells h p res = Inr cells \<and> map ni_hash (zp_zones r) = cells"
    by blast
next
  fix cells infos
  assume "polygonToCells h p res = Inr cells
         \<and> array_map (formatNeighborInfo h) cells = Inr infos"
  then show "getZonesInPolygon h p res =
           Inr \<lparr>zp_polygon = p, zp_resolution = res, zp_zones = infos,
                zp_count = Fin (of_nat (length cells))\<rparr>"
    by (simp add: getZonesInPolygon_def array_length_def)
next
  fix f assume "polygonToCells h p res = Inl f"
  then show "getZonesInPolygon h p res = Inl f"
    by (simp add: getZonesInPolygon_def)
next
  fix b r assume a: "getZonesInArea h b res = Inr r"
  from getZonesInArea_Inr [OF a] obtain cells where
    p: "polygonToCells h (box_ring b) res = Inr cells"
    and m: "array_map (formatNeighborInfo h) cells = Inr (za_zones r)"
    by blast
  from p array_map_hashes [OF m]
  show "\<exists>corners cells.
            corners = [JArr [JNum (minLat b), JNum (minLng b)],
                       JArr [JNum (minLat b), JNum (maxLng b)],
                       JArr [JNum (maxLat b), JNum (maxLng b)],
                       JArr [JNum (maxLat b), JNum (minLng b)]]
            \<and> polygonToCells h (JArr (corners @ [hd corners])) res = Inr cells
            \<and> map ni_hash (za_zones r) = cells"
    by (simp add: box_ring_def)
qed

text \<open>
  An open triangle reaches the sample fill with its three vertices (three cells); the box
  with the same corners reaches it with five (five cells).
\<close>

theorem getZonesInPolygon_as_given_witness:
  "\<exists>zp za.
     getZonesInPolygon sample_h3
       (JArr [JArr [JNum (Fin 0), JNum (Fin 0)], JArr [JNum (Fin 0), JNum (Fin 1)],
              JArr [JNum (Fin 1), JNum (Fin 1)]]) (Fin 9) = Inr zp
     \<and> zp_polygon zp =
         JArr [JArr [JNum (Fin 0), JNum (Fin 0)], JArr [JNum (Fin 0), JNum (Fin 1)],
               JArr [JNum (Fin 1), JNum (Fin 1)]]
     \<and> map ni_hash (zp_zones zp) = [''v'', ''vv'', ''vvv'']
     \<and> getZonesInArea sample_h3
         \<lparr>minLat = Fin 0, minLng = Fin 0, maxLat = Fin 1, maxLng = Fin 1\<rparr> (Fin 9) = Inr za
     \<and> map ni_hash (za_zones za) = [''v'', ''vv'', ''vvv'', ''vvvv'', ''vvvvv'']"
proof -
  let ?p = "JArr [JArr [JNum (Fin 0), JNum (Fin 0)], JArr [JNum (Fin 0), JNum (Fin 1)],
              JArr [JNum (Fin 1), JNum (Fin 1)]]"
  let ?b = "\<lparr>minLat = Fin 0, minLng = Fin 0, maxLat = Fin 1, maxLng = Fin 1\<rparr>"
  note t = getZonesInPolygon_as_given [of sample_h3 ?p "Fin 9"]
  obtain zp where zp: "getZonesInPolygon sample_h3 ?p (Fin 9) = Inr zp"
    by (simp add: sample_defs upt_conv_Cons)
  obtain za where za: "getZonesInArea sample_h3 ?b (Fin 9) = Inr za"
    by (simp add: sample_defs upt_conv_Cons)
  from t zp have 1: "zp_polygon zp = ?p" by blast
  from t zp obtain cells where "polygonToCells sample_h3 ?p (Fin 9) = Inr cells"
    and "map ni_hash (zp_zones zp) = cells" by blast
  then have 2: "map ni_hash (zp_zones zp) = [''v'', ''vv'', ''vvv'']"
    by (auto simp: sample_h3_def upt_conv_Cons)
  from t za have "\<exists>cells. polygonToCells sample_h3
      (JArr ([JArr [JNum (minLat ?b), JNum (minLng ?b)],
                       JArr [JNum (minLat ?b), JNum (maxLng ?b)],
                       JArr [JNum (maxLat ?b), JNum (maxLng ?b)],
                       JArr [JNum (maxLat ?b), JNum (minLng ?b)]]
        @ [hd [JArr [JNum (minLat ?b), JNum (minLng ?b)],
                       JArr [JNum (minLat ?b), JNum (maxLng ?b)],
                       JArr [JNum (maxLat ?b), JNum (maxLng ?b)],
                       JArr [JNum (maxLat ?b), JNum (minLng ?b)]]])) (Fin 9) = Inr cells
      \<and> map ni_hash (za_zones za) = cells"
    by blast
  then have 3: "map ni_hash (za_zones za) = [''v'', ''vv'', ''vvv'', ''vvvv'', ''vvvvv'']"
    by (auto simp: sample_h3_def upt_conv_Cons)
  show ?thesis
    by (rule exI [of _ zp], rule exI [of _ za]) (intro conjI zp za 1 2 3)
qed


section \<open>Neighbors and zone detail\<close>

text \<open>
  C5. The hashes of the \<open>neighbors\<close> of a \<open>getNeighbors\<close> response are exactly the ring
  disk the library returned for the hash at distance \<open>k\<close>, nothing removed, so the
  queried hash is among them whenever the disk contains it; and whenever the library
  answers for the disk, for the center of each of its cells and for the resolution, the
  call returns such a response. The \<open>neighbors\<close> of a \<open>getDetailedZoneInfo\<close> response
  are the ring disk at distance 1 with the queried hash filtered out; and whenever the
  library answers the calls made for a cell of resolution \<open>n\<close> from 0 to 15, the call
  returns such a response.
\<close>

theorem neighbors_keep_self_detail_drops_it:
  "(\<forall>nb. getNeighbors h hash k = Inr nb \<longrightarrow>
       (\<exists>cells. gridDisk h hash (case k of None \<Rightarrow> Fin 1 | Some v \<Rightarrow> v) = Inr cells
          \<and> map ni_hash (nb_neighbors nb) = cells
          \<and> (hash \<in> set cells \<longrightarrow> hash \<in> set (map ni_hash (nb_neighbors nb)))))
   \<and> (\<forall>d. getDetailedZoneInfo h hash = Inr d \<longrightarrow>
       (\<exists>cells. gridDisk h hash (Fin 1) = Inr cells
          \<and> dz_neighbors d = filter (\<lambda>x. x \<noteq> hash) cells
          \<and> hash \<notin> set (dz_neighbors d)))
   \<and> (\<forall>cells res.
         gridDisk h hash (case k of None \<Rightarrow> Fin 1 | Some v \<Rightarrow> v) = Inr cells
         \<and> (\<forall>x\<in>set cells. \<exists>p. cellToLatLng h x = Inr p)
         \<and> getResolution h hash = Inr res \<longrightarrow>
         (\<exists>nb. getNeighbors h hash k = Inr nb
            \<and> map ni_hash (nb_neighbors nb) = cells
            \<and> (hash \<in> set cells \<longrightarrow> hash \<in> set (map ni_hash (nb_neighbors nb)))))
   \<and> (\<forall>center boundary n disk p cs.
         cellToLatLng h hash = Inr center
         \<and> cellToBoundary h hash = Inr boundary
         \<and> getResolution h hash = Inr (Fin (of_nat n)) \<and> n \<le> 15
         \<and> gridDisk h hash (Fin 1) = Inr disk
         \<and> (0 < n \<longrightarrow> cellToParent h hash (Fin (of_nat (n - 1))) = Inr p)
         \<and> (n < 15 \<longrightarrow> cellToChildren h hash (Fin (of_nat (n + 1))) = Inr cs) \<longrightarrow>
         (\<exists>d. getDetailedZoneInfo h hash = Inr d
            \<and> dz_neighbors d = filter (\<lambda>x. x \<noteq> hash) disk
            \<and> hash \<notin> set (dz_neighbors d)))"
proof (intro conjI allI impI)
  fix nb assume a: "getNeighbors h hash k = Inr nb"
  from getNeighbors_Inr [OF a] obtain cells where
    g: "gridDisk h hash (case k of None \<Rightarrow> Fin 1 | Some v \<Rightarrow> v) = Inr cells"
    and m: "array_map (formatNeighborInfo h) cells = Inr (nb_neighbors nb)"
    by blast
  from g array_map_hashes [OF m]
  show "\<exists>cells. gridDisk h hash (case k of None \<Rightarrow> Fin 1 | Some v \<Rightarrow> v) = Inr cells
          \<and> map ni_hash (nb_neighbors nb) = cells
          \<and> (hash \<in> set cells \<longrightarrow> hash \<in> set (map ni_hash (nb_neighbors nb)))"
    by simp
next
  fix d assume a: "getDetailedZoneInfo h hash = Inr d"
  from getDetailedZoneInfo_Inr [OF a] obtain center boundary res disk parent children where
    g: "gridDisk h hash (Fin 1) = Inr disk"
    and d: "d = \<lparr>dz_hash = hash, dz_resolution = res, dz_center = formatCenter center,
                  dz_boundary = formatBoundary boundary,
                  dz_neighbors = filter (\<lambda>x. x \<noteq> hash) disk,
                  dz_parent = parent, dz_children = take 10 children,
                  dz_childrenCount = array_length children\<rparr>"
    by blast
  have "dz_neighbors d = filter (\<lambda>x. x \<noteq> hash) disk"
    by (subst d) simp
  with g show "\<exists>cells. gridDisk h hash (Fin 1) = Inr cells
          \<and> dz_neighbors d = filter (\<lambda>x. x \<noteq> hash) cells
          \<and> hash \<notin> set (dz_neighbors d)"
    by simp
next
  fix cells res
  assume a: "gridDisk h hash (case k of None \<Rightarrow> Fin 1 | Some v \<Rightarrow> v) = Inr cells
         \<and> (\<forall>x\<in>set cells. \<exists>p. cellToLatLng h x = Inr p)
         \<and> getResolution h hash = Inr res"
  then obtain infos where i: "array_map (formatNeighborInfo h) cells = Inr infos"
    using formatNeighborInfo_answers [of cells h] by blast
  from a have g: "gridDisk h hash (case k of None \<Rightarrow> Fin 1 | Some v \<Rightarrow> v) = Inr cells"
    and r: "getResolution h hash = Inr res"
    by simp_all
  let ?nb = "\<lparr>nb_hash = hash, nb_k = (case k of None \<Rightarrow> Fin 1 | Some v \<Rightarrow> v),
          nb_neighbors = infos, nb_count = Fin (of_nat (length cells)), nb_resolution = res\<rparr>"
  have "getNeighbors h hash k = Inr ?nb"
    by (rule getNeighbors_returns [OF g i r])
  moreover have "map ni_hash (nb_neighbors ?nb) = cells"
    using array_map_hashes [OF i] by simp
  ultimately show "\<exists>nb. getNeighbors h hash k = Inr nb
            \<and> map ni_hash (nb_neighbors nb) = cells
            \<and> (hash \<in> set cells \<longrightarrow> hash \<in> set (map ni_hash (nb_neighbors nb)))"
    by (intro exI [of _ ?nb]) simp
next
  fix center boundary n disk p cs
  assume a: "cellToLatLng h hash = Inr center
         \<and> cellToBoundary h hash = Inr boundary
         \<and> getResolution h hash = Inr (Fin (of_nat n)) \<and> n \<le> 15
         \<and> gridDisk h hash (Fin 1) = Inr disk
         \<and> (0 < n \<longrightarrow> cellToParent h hash (Fin (of_nat (n - 1))) = Inr p)
         \<and> (n < 15 \<longrightarrow> cellToChildren h hash (Fin (of_nat (n + 1))) = Inr cs)"
  then have "getDetailedZoneInfo h hash =
     Inr \<lparr>dz_hash = hash, dz_resolution = Fin (of_nat n), dz_center = formatCenter center,
          dz_boundary = formatBoundary boundary,
          dz_neighbors = filter (\<lambda>x. x \<noteq> hash) disk,
          dz_parent = (if 0 < n then Some p else None),
          dz_children = (if n < 15 then take 10 cs else []),
          dz_childrenCount = Fin (of_nat (if n < 15 then length cs else 0))\<rparr>"
    by (intro getDetailedZoneInfo_returns) simp_all
  then show "\<exists>d. getDetailedZoneInfo h hash = Inr d
            \<and> dz_neighbors d = filter (\<lambda>x. x \<noteq> hash) disk
            \<and> hash \<notin> set (dz_neighbors d)"
    by simp
qed

text \<open>
  Cell \<open>abc\<close> of the sample library, which answers every call: \<open>getNeighbors\<close> at 2
  returns the disk with \<open>abc\<close> in it, \<open>getDetailedZoneInfo\<close> returns the disk at 1
  without it.
\<close>

theorem neighbors_keep_self_detail_drops_it_witness:
  "\<exists>nb d. getNeighbors sample_h3 ''abc'' (Some (Fin 2)) = Inr nb
     \<and> map ni_hash (nb_neighbors nb) = [''abc'', ''r'', ''rr'']
     \<and> ''abc'' \<in> set (map ni_hash (nb_neighbors nb))
     \<and> getDetailedZoneInfo sample_h3 ''abc'' = Inr d
     \<and> dz_neighbors d = [''r'']
     \<and> ''abc'' \<notin> set (dz_neighbors d)"
proof -
  note t = neighbors_keep_self_detail_drops_it [of sample_h3 "''abc''" "Some (Fin 2)"]
  have g: "gridDisk sample_h3 ''abc'' (case Some (Fin 2) of None \<Rightarrow> Fin 1 | Some v \<Rightarrow> v) =
      Inr [''abc'', ''r'', ''rr'']"
    by (simp add: sample_h3_def upt_conv_Cons)
  have c: "\<forall>x\<in>set [''abc'', ''r'', ''rr'']. \<exists>p. cellToLatLng sample_h3 x = Inr p"
    by (simp add: sample_h3_def)
  have r: "getResolution sample_h3 ''abc'' = Inr (Fin (of_nat 3))"
    by (simp add: sample_h3_def)
  note t3 = t [THEN conjunct2, THEN conjunct2, THEN conjunct1, rule_format]
  from t3 [OF conjI [OF g conjI [OF c r]]]
  obtain nb where nb: "getNeighbors sample_h3 ''abc'' (Some (Fin 2)) = Inr nb"
    and 1: "map ni_hash (nb_neighbors nb) = [''abc'', ''r'', ''rr'']"
    and i: "''abc'' \<in> set [''abc'', ''r'', ''rr''] \<longrightarrow>
            ''abc'' \<in> set (map ni_hash (nb_neighbors nb))"
    by (elim exE conjE) (rule that)
  from i have 2: "''abc'' \<in> set (map ni_hash (nb_neighbors nb))"
    by simp
  have l: "cellToLatLng sample_h3 ''abc'' = Inr (Fin 0, Fin (of_nat 3))"
    and b: "cellToBoundary sample_h3 ''abc'' = Inr []"
    and g1: "gridDisk sample_h3 ''abc'' (Fin 1) = Inr [''abc'', ''r'']"
    and p: "0 < (3::nat) \<longrightarrow> cellToParent sample_h3 ''abc'' (Fin (of_nat (3 - 1))) = Inr ''ab''"
    and cs: "(3::nat) < 15 \<longrightarrow>
       cellToChildren sample_h3 ''abc'' (Fin (of_nat (3 + 1))) =
         Inr (map (\<lambda>c. ''abc'' @ [c]) ''0123456789ab'')"
    by (simp_all add: sample_h3_def upt_conv_Cons)
  have n: "(3::nat) \<le> 15" by simp
  note t4 = t [THEN conjunct2, THEN conjunct2, THEN conjunct2, rule_format]
  from t4 [OF conjI [OF l conjI [OF b conjI [OF r conjI [OF n conjI [OF g1 conjI [OF p cs]]]]]]]
  obtain d where d: "getDetailedZoneInfo sample_h3 ''abc'' = Inr d"
    and 3: "dz_neighbors d = filter (\<lambda>x. x \<noteq> ''abc'') [''abc'', ''r'']"
    and 4: "''abc'' \<notin> set (dz_neighbors d)"
    by (elim exE conjE) (rule that)
  from 3 have 5: "dz_neighbors d = [''r'']" by simp
  show ?thesis
    by (rule exI [of _ nb], rule exI [of _ d]) (intro conjI nb d 1 2 5 4)
qed

text \<open>
  C4. For a hash whose resolution the library reports as an integer \<open>n\<close> from 0 to 15 (as
  it does for every valid cell), a response of \<open>getDetailedZoneInfo\<close> has \<open>parent\<close> null
  exactly when \<open>n = 0\<close> and otherwise the parent the library returned at resolution
  \<open>n - 1\<close>; \<open>children\<close> is empty when \<open>n = 15\<close> and otherwise the first 10 of the children
  the library returned at resolution \<open>n + 1\<close>; and \<open>childrenCount\<close> is the number of all
  those children (0 at resolution 15, where none are asked for). Whenever the library
  answers for the center, the boundary, the disk at 1, the parent (asked for when
  \<open>n > 0\<close>) and the children (asked for when \<open>n < 15\<close>), the call returns exactly that
  struct.
\<close>

theorem getDetailedZoneInfo_parent_children:
  "getResolution h hash = Inr (Fin (of_nat n)) \<Longrightarrow> n \<le> 15 \<Longrightarrow>
     (\<forall>d. getDetailedZoneInfo h hash = Inr d \<longrightarrow>
        (dz_parent d = None \<longleftrightarrow> n = 0)
        \<and> (0 < n \<longrightarrow>
             (\<exists>p. cellToParent h hash (Fin (of_nat (n - 1))) = Inr p \<and> dz_parent d = Some p))
        \<and> (n = 15 \<longrightarrow> dz_children d = [] \<and> dz_childrenCount d = Fin 0)
        \<and> (n < 15 \<longrightarrow>
             (\<exists>cs. cellToChildren h hash (Fin (of_nat (n + 1))) = Inr cs
                \<and> dz_children d = take 10 cs
                \<and> dz_childrenCount d = Fin (of_nat (length cs)))))
     \<and> (\<forall>center boundary disk p cs.
          cellToLatLng h hash = Inr center
          \<and> cellToBoundary h hash = Inr boundary
          \<and> gridDisk h hash (Fin 1) = Inr disk
          \<and> (0 < n \<longrightarrow> cellToParent h hash (Fin (of_nat (n - 1))) = Inr p)
          \<and> (n < 15 \<longrightarrow> cellToChildren h hash (Fin (of_nat (n + 1))) = Inr cs) \<longrightarrow>
          getDetailedZoneInfo h hash =
            Inr \<lparr>dz_hash = hash, dz_resolution = Fin (of_nat n),
                 dz_center = formatCenter center, dz_boundary = formatBoundary boundary,
                 dz_neighbors = filter (\<lambda>x. x \<noteq> hash) disk,
                 dz_parent = (if 0 < n then Some p else None),
                 dz_children = (if n < 15 then take 10 cs else []),
                 dz_childrenCount = Fin (of_nat (if n < 15 then length cs else 0))\<rparr>)"
proof (intro conjI allI impI)
  assume res: "getResolution h hash = Inr (Fin (of_nat n))" and n: "n \<le> 15"
  fix center boundary disk p cs
  assume a: "cellToLatLng h hash = Inr center
          \<and> cellToBoundary h hash = Inr boundary
          \<and> gridDisk h hash (Fin 1) = Inr disk
          \<and> (0 < n \<longrightarrow> cellToParent h hash (Fin (of_nat (n - 1))) = Inr p)
          \<and> (n < 15 \<longrightarrow> cellToChildren h hash (Fin (of_nat (n + 1))) = Inr cs)"
  with res show "getDetailedZoneInfo h hash =
            Inr \<lparr>dz_hash = hash, dz_resolution = Fin (of_nat n),
                 dz_center = formatCenter center, dz_boundary = formatBoundary boundary,
                 dz_neighbors = filter (\<lambda>x. x \<noteq> hash) disk,
                 dz_parent = (if 0 < n then Some p else None),
                 dz_children = (if n < 15 then take 10 cs else []),
                 dz_childrenCount = Fin (of_nat (if n < 15 then length cs else 0))\<rparr>"
    by (intro getDetailedZoneInfo_returns) simp_all
next
  assume res: "getResolution h hash = Inr (Fin (of_nat n))" and n: "n \<le> 15"
  fix d assume a: "getDetailedZoneInfo h hash = Inr d"
  from getDetailedZoneInfo_Inr [OF a] obtain center boundary res' disk parent children where
    r': "getResolution h hash = Inr res'"
    and p': "(if num_lt (Fin 0) res' then
           and_then (cellToParent h hash (num_sub res' (Fin 1))) (\<lambda>p. Inr (Some p))
         else Inr None) = Inr parent"
    and c': "(if num_lt res' (Fin 15) then cellToChildren h hash (num_add res' (Fin 1))
         else Inr []) = Inr children"
    and d: "d = \<lparr>dz_hash = hash, dz_resolution = res', dz_center = formatCenter center,
                  dz_boundary = formatBoundary boundary,
                  dz_neighbors = filter (\<lambda>x. x \<noteq> hash) disk,
                  dz_parent = parent, dz_children = take 10 children,
                  dz_childrenCount = array_length children\<rparr>"
    by blast
  from r' res have e: "res' = Fin (of_nat n)" by simp
  note p = p' [unfolded e] and c = c' [unfolded e num_add_one]
  have dp: "dz_parent d = parent" by (subst d) simp
  have dc: "dz_children d = take 10 children" by (subst d) simp
  have dn: "dz_childrenCount d = Fin (of_nat (length children))"
    by (subst d) (simp add: array_length_def)
  have p0: "n = 0 \<Longrightarrow> parent = None"
    using p by simp
  have p1: "0 < n \<Longrightarrow> \<exists>q. cellToParent h hash (Fin (of_nat (n - 1))) = Inr q \<and> parent = Some q"
  proof -
    assume "0 < n"
    with p have "and_then (cellToParent h hash (Fin (of_nat (n - 1)))) (\<lambda>p. Inr (Some p)) = Inr parent"
      by (simp add: num_sub_one)
    then show ?thesis
      unfolding and_then_eq_Inr by blast
  qed
  have c15: "n = 15 \<Longrightarrow> children = []"
    using c by simp
  have c1: "n < 15 \<Longrightarrow> cellToChildren h hash (Fin (of_nat (n + 1))) = Inr children"
    using c by simp
  from p0 p1 show "dz_parent d = None \<longleftrightarrow> n = 0"
    unfolding dp by (cases "n = 0") auto
  from p1 show "0 < n \<Longrightarrow>
          \<exists>p. cellToParent h hash (Fin (of_nat (n - 1))) = Inr p \<and> dz_parent d = Some p"
    unfolding dp by simp
  from c15 show "n = 15 \<Longrightarrow> dz_children d = []"
    unfolding dc by simp
  from c15 show "n = 15 \<Longrightarrow> dz_childrenCount d = Fin 0"
    unfolding dn by simp
  from c1 show "n < 15 \<Longrightarrow>
          \<exists>cs. cellToChildren h hash (Fin (of_nat (n + 1))) = Inr cs
             \<and> dz_children d = take 10 cs
             \<and> dz_childrenCount d = Fin (of_nat (length cs))"
    unfolding dc dn by simp
qed

text \<open>
  Cell \<open>abc\<close> of the sample library has resolution 3 and twelve children, and every call
  is answered: the struct is returned, the parent is \<open>ab\<close>, ten children are listed,
  twelve are counted.
\<close>

theorem getDetailedZoneInfo_parent_children_witness:
  "\<exists>d. getDetailedZoneInfo sample_h3 ''abc'' = Inr d
     \<and> getResolution sample_h3 ''abc'' = Inr (Fin (of_nat 3)) \<and> (3::nat) \<le> 15
     \<and> dz_parent d = Some ''ab''
     \<and> dz_children d = [''abc0'', ''abc1'', ''abc2'', ''abc3'', ''abc4'', ''abc5'', ''abc6'',
                         ''abc7'', ''abc8'', ''abc9'']
     \<and> dz_childrenCount d = Fin 12"
proof -
  have r: "getResolution sample_h3 ''abc'' = Inr (Fin (of_nat 3))"
    by (simp add: sample_h3_def)
  have n: "(3::nat) \<le> 15" by simp
  let ?d = "\<lparr>dz_hash = ''abc'', dz_resolution = Fin (of_nat 3),
       dz_center = formatCenter (Fin 0, Fin (of_nat 3)), dz_boundary = formatBoundary [],
       dz_neighbors = filter (\<lambda>x. x \<noteq> ''abc'') [''abc'', ''r''],
       dz_parent = (if 0 < (3::nat) then Some ''ab'' else None),
       dz_children =
         (if (3::nat) < 15 then take 10 (map (\<lambda>c. ''abc'' @ [c]) ''0123456789ab'') else []),
       dz_childrenCount =
         Fin (of_nat (if (3::nat) < 15 then length (map (\<lambda>c. ''abc'' @ [c]) ''0123456789ab'')
                      else 0))\<rparr>"
  note t = getDetailedZoneInfo_parent_children [OF r n]
  have l: "cellToLatLng sample_h3 ''abc'' = Inr (Fin 0, Fin (of_nat 3))"
    and b: "cellToBoundary sample_h3 ''abc'' = Inr []"
    and g: "gridDisk sample_h3 ''abc'' (Fin 1) = Inr [''abc'', ''r'']"
    and p: "0 < (3::nat) \<longrightarrow> cellToParent sample_h3 ''abc'' (Fin (of_nat (3 - 1))) = Inr ''ab''"
    and cs: "(3::nat) < 15 \<longrightarrow>
       cellToChildren sample_h3 ''abc'' (Fin (of_nat (3 + 1))) =
         Inr (map (\<lambda>c. ''abc'' @ [c]) ''0123456789ab'')"
    by (simp_all add: sample_h3_def upt_conv_Cons)
  note t2 = t [THEN conjunct2, rule_format]
  note d = t2 [OF conjI [OF l conjI [OF b conjI [OF g conjI [OF p cs]]]]]
  note t1 = t [THEN conjunct1, rule_format, OF d]
  from t1 have 1: "dz_parent ?d = Some ''ab''"
    by simp
  from t1 have 2: "dz_children ?d = [''abc0'', ''abc1'', ''abc2'', ''abc3'', ''abc4'', ''abc5'',
                         ''abc6'', ''abc7'', ''abc8'', ''abc9'']"
    and 3: "dz_childrenCount ?d = Fin 12"
    by simp_all
  show ?thesis
    by (rule exI [of _ ?d]) (intro conjI d r n 1 2 3)
qed

section \<open>Validators\<close>

text \<open>
  C1. The claim: \<open>validateCoordinates\<close> returns an invalid result whenever \<open>lat\<close> or \<open>lng\<close>
  is \<open>NaN\<close>. The code: all four comparisons are false on \<open>NaN\<close>, so a \<open>NaN\<close> latitude
  or longitude passes as valid, while \<open>validateResolution\<close>, which also asks
  \<open>Number.isInteger\<close>, rejects \<open>NaN\<close>.
\<close>

theorem validateCoordinates_passes_NaN:
  "validateCoordinates e (JNum NaN) (JNum NaN) = Inr valid
   \<and> validateCoordinates e (JNum NaN) (JNum (Fin 0)) = Inr valid
   \<and> validateCoordinates e (JNum (Fin 0)) (JNum NaN) = Inr valid
   \<and> validateResolution e (JNum NaN) =
        Inr (invalid ''Resolution must be an integer between 0 and 15'')"
  by (simp add: validateCoordinates_def validateResolution_num)

text \<open>
  C8. \<open>validateResolution\<close> returns valid if and only if its argument is an integer
  number from 0 to 15; on every number it returns valid or the one invalid result; -1,
  16 and 7.5 are invalid, 0 and 15 are valid.
\<close>

theorem validateResolution_integer_range:
  "(validateResolution e r = Inr valid \<longleftrightarrow>
      (\<exists>n::int. r = JNum (Fin (of_int n)) \<and> 0 \<le> n \<and> n \<le> 15))
   \<and> (\<forall>x. validateResolution e (JNum x) = Inr valid
          \<or> validateResolution e (JNum x) =
              Inr (invalid ''Resolution must be an integer between 0 and 15''))
   \<and> validateResolution e (JNum (Fin (- 1))) =
        Inr (invalid ''Resolution must be an integer between 0 and 15'')
   \<and> validateResolution e (JNum (Fin 16)) =
        Inr (invalid ''Resolution must be an integer between 0 and 15'')
   \<and> validateResolution e (JNum (Fin (15 / 2))) =
        Inr (invalid ''Resolution must be an integer between 0 and 15'')
   \<and> validateResolution e (JNum (Fin 0)) = Inr valid
   \<and> validateResolution e (JNum (Fin 15)) = Inr valid"
proof (intro conjI allI)
  show "validateResolution e r = Inr valid \<longleftrightarrow>
      (\<exists>n::int. r = JNum (Fin (of_int n)) \<and> 0 \<le> n \<and> n \<le> 15)"
  proof
    assume v: "validateResolution e r = Inr valid"
    from validateResolution_valid_is_integer [OF v] obtain n :: int
      where r: "r = JNum (Fin (of_int n))"
      unfolding Number_isInteger_iff by blast
    from v have "0 \<le> n \<and> n \<le> 15"
      unfolding r validateResolution_num by (simp split: if_splits)
    with r show "\<exists>n::int. r = JNum (Fin (of_int n)) \<and> 0 \<le> n \<and> n \<le> 15"
      by blast
  next
    assume "\<exists>n::int. r = JNum (Fin (of_int n)) \<and> 0 \<le> n \<and> n \<le> 15"
    then obtain n :: int where r: "r = JNum (Fin (of_int n))" and "0 \<le> n" "n \<le> 15"
      by blast
    then show "validateResolution e r = Inr valid"
      unfolding r validateResolution_num by simp
  qed
next
  fix x
  show "validateResolution e (JNum x) = Inr valid
          \<or> validateResolution e (JNum x) =
              Inr (invalid ''Resolution must be an integer between 0 and 15'')"
    unfolding validateResolution_num by simp
next
  show "validateResolution e (JNum (Fin (- 1))) =
        Inr (invalid ''Resolution must be an integer between 0 and 15'')"
    unfolding validateResolution_num by simp
next
  show "validateResolution e (JNum (Fin 16)) =
        Inr (invalid ''Resolution must be an integer between 0 and 15'')"
    unfolding validateResolution_num by simp
next
  have "\<not> Number_isInteger (JNum (Fin (15 / 2)))"
    unfolding Number_isInteger_iff using half_not_int by auto
  then show "validateResolution e (JNum (Fin (15 / 2))) =
        Inr (invalid ''Resolution must be an integer between 0 and 15'')"
    unfolding validateResolution_num by (simp only: simp_thms if_False)
next
  show "validateResolution e (JNum (Fin 0)) = Inr valid"
    unfolding validateResolution_num by simp
next
  show "validateResolution e (JNum (Fin 15)) = Inr valid"
    unfolding validateResolution_num by simp
qed

text \<open>
  C6, as the code has it, for vertices whose components are numbers other than \<open>NaN\<close>.
  An input that is no array of at least 3 elements is invalid with the too-few-vertices
  reason, whatever it is. An array of at least 3 two-element arrays of numbers with
  \<open>-90 \<le> lat \<le> 90\<close> and \<open>-180 \<le> lng \<le> 180\<close> is valid. Vertices are checked in order
  and the first vertex that is not such a pair decides, whatever follows it: the result
  is invalid with the shape reason when that vertex is not a two-element array, and
  invalid with the coordinate-range reason when it is a pair of numbers out of range.
  So on an array in which every two-element vertex has components that are numbers
  other than \<open>NaN\<close>, the result is valid exactly when there are at least 3 vertices and
  all are pairs in range, and invalid with one of the three reasons otherwise.
  \<open>[[0,0],[1,1]]\<close> is invalid with the too-few-vertices reason and
  \<open>[[91,0],[0,0],[0,1]]\<close> with the coordinate-range reason.
\<close>

theorem validatePolygon_first_failing_vertex:
  "((\<nexists>vs. p = JArr vs \<and> 3 \<le> length vs) \<longrightarrow> validatePolygon e p = Inr (invalid ''Polygon must be an array of at least 3 [lat, lng] coordinates''))
   \<and> (\<forall>vs. 3 \<le> length vs \<and> list_all valid_pair vs \<longrightarrow> validatePolygon e (JArr vs) = Inr valid)
   \<and> (\<forall>pre v post.
        3 \<le> length (pre @ v # post) \<and> list_all valid_pair pre \<and> \<not> pair_shaped v \<longrightarrow>
        validatePolygon e (JArr (pre @ v # post)) = Inr (invalid ''Each polygon coordinate must be a [lat, lng] array''))
   \<and> (\<forall>pre v post.
        3 \<le> length (pre @ v # post) \<and> list_all valid_pair pre
        \<and> numeric_pair v \<and> \<not> valid_pair v \<longrightarrow>
        validatePolygon e (JArr (pre @ v # post)) = Inr (invalid ''Latitude must be between -90 and 90, longitude between -180 and 180''))
   \<and> (\<forall>vs. list_all (\<lambda>v. \<not> pair_shaped v \<or> numeric_pair v) vs \<longrightarrow>
        (validatePolygon e (JArr vs) = Inr valid \<longleftrightarrow> 3 \<le> length vs \<and> list_all valid_pair vs)
        \<and> (validatePolygon e (JArr vs) = Inr valid
            \<or> validatePolygon e (JArr vs) = Inr (invalid ''Polygon must be an array of at least 3 [lat, lng] coordinates'')
            \<or> validatePolygon e (JArr vs) = Inr (invalid ''Each polygon coordinate must be a [lat, lng] array'')
            \<or> validatePolygon e (JArr vs) = Inr (invalid ''Latitude must be between -90 and 90, longitude between -180 and 180'')))
   \<and> (\<forall>v. valid_pair v \<longleftrightarrow>
          (\<exists>a b. v = JArr [JNum (Fin a), JNum (Fin b)]
             \<and> - 90 \<le> a \<and> a \<le> 90 \<and> - 180 \<le> b \<and> b \<le> 180))
   \<and> (\<forall>v. numeric_pair v \<longleftrightarrow>
          (\<exists>la lo. v = JArr [JNum la, JNum lo] \<and> la \<noteq> NaN \<and> lo \<noteq> NaN))
   \<and> (\<forall>v. pair_shaped v \<longleftrightarrow> (\<exists>x y. v = JArr [x, y]))
   \<and> validatePolygon e
        (JArr [JArr [JNum (Fin 0), JNum (Fin 0)], JArr [JNum (Fin 1), JNum (Fin 1)]]) =
        Inr (invalid ''Polygon must be an array of at least 3 [lat, lng] coordinates'')
   \<and> validatePolygon e
        (JArr [JArr [JNum (Fin 91), JNum (Fin 0)], JArr [JNum (Fin 0), JNum (Fin 0)],
               JArr [JNum (Fin 0), JNum (Fin 1)]]) =
        Inr (invalid ''Latitude must be between -90 and 90, longitude between -180 and 180'')"
proof -
  have few: "validatePolygon e p = Inr (invalid ''Polygon must be an array of at least 3 [lat, lng] coordinates'')"
    if "\<nexists>vs. p = JArr vs \<and> 3 \<le> length vs" for p
    using that by (cases p) (auto simp: validatePolygon_def)
  have all_valid: "validatePolygon e (JArr vs) = Inr valid"
    if "3 \<le> length vs" "list_all valid_pair vs" for vs
    using that valid_pairs_pass [of vs e]
    by (simp add: validatePolygon_def validatePolygon_loop_valid)
  have shape: "validatePolygon e (JArr (pre @ v # post)) = Inr (invalid ''Each polygon coordinate must be a [lat, lng] array'')"
    if "3 \<le> length (pre @ v # post)" "list_all valid_pair pre" "\<not> pair_shaped v"
    for pre v post
    using that validatePolygon_loop_first_invalid
      [OF that(2) vertex_check_not_pair_shaped [OF that(3)], of e post]
    by (simp add: validatePolygon_def)
  have range: "validatePolygon e (JArr (pre @ v # post)) = Inr (invalid ''Latitude must be between -90 and 90, longitude between -180 and 180'')"
    if "3 \<le> length (pre @ v # post)" "list_all valid_pair pre" "numeric_pair v" "\<not> valid_pair v"
    for pre v post
  proof -
    from that(3,4) have "vertex_check e v = Inr (invalid ''Latitude must be between -90 and 90, longitude between -180 and 180'')"
      by (simp add: vertex_check_numeric)
    from validatePolygon_loop_first_invalid [OF that(2) this, of post] that(1)
    show ?thesis by (simp add: validatePolygon_def)
  qed
  have settled: "(validatePolygon e (JArr vs) = Inr valid \<longleftrightarrow> 3 \<le> length vs \<and> list_all valid_pair vs)
        \<and> (validatePolygon e (JArr vs) = Inr valid
            \<or> validatePolygon e (JArr vs) = Inr (invalid ''Polygon must be an array of at least 3 [lat, lng] coordinates'')
            \<or> validatePolygon e (JArr vs) = Inr (invalid ''Each polygon coordinate must be a [lat, lng] array'')
            \<or> validatePolygon e (JArr vs) = Inr (invalid ''Latitude must be between -90 and 90, longitude between -180 and 180''))"
    if s: "list_all (\<lambda>v. \<not> pair_shaped v \<or> numeric_pair v) vs" for vs
  proof (cases "3 \<le> length vs")
    case False
    then have "validatePolygon e (JArr vs) = Inr (invalid ''Polygon must be an array of at least 3 [lat, lng] coordinates'')"
      by (intro few) simp
    with False show ?thesis by simp
  next
    case long: True
    show ?thesis
    proof (cases "list_all valid_pair vs")
      case True
      with long all_valid [of vs] show ?thesis by simp
    next
      case False
      from first_failing_vertex [OF False] obtain pre v post where
        vs: "vs = pre @ v # post" and pre: "list_all valid_pair pre" and v: "\<not> valid_pair v"
        by blast
      from s vs have "\<not> pair_shaped v \<or> numeric_pair v" by simp
      then have "validatePolygon e (JArr vs) = Inr (invalid ''Each polygon coordinate must be a [lat, lng] array'')
            \<or> validatePolygon e (JArr vs) = Inr (invalid ''Latitude must be between -90 and 90, longitude between -180 and 180'')"
        using shape [of pre v post] range [of pre v post] long pre v unfolding vs by blast
      with False show ?thesis by auto
    qed
  qed
  have vp: "valid_pair v \<longleftrightarrow>
          (\<exists>a b. v = JArr [JNum (Fin a), JNum (Fin b)]
             \<and> - 90 \<le> a \<and> a \<le> 90 \<and> - 180 \<le> b \<and> b \<le> 180)" for v
  proof (cases v rule: valid_pair.cases)
    case (1 la lo)
    then show ?thesis by (cases la; cases lo) simp_all
  qed simp_all
  have np: "numeric_pair v \<longleftrightarrow>
          (\<exists>la lo. v = JArr [JNum la, JNum lo] \<and> la \<noteq> NaN \<and> lo \<noteq> NaN)" for v
    by (cases v rule: numeric_pair.cases) simp_all
  have ps: "pair_shaped v \<longleftrightarrow> (\<exists>x y. v = JArr [x, y])" for v
  proof (cases v)
    case (JArr c)
    have "length c = 2 \<longleftrightarrow> (\<exists>x y. c = [x, y])"
      by (cases c; cases "tl c") auto
    with JArr show ?thesis by simp
  qed simp_all
  have ex1: "validatePolygon e
        (JArr [JArr [JNum (Fin 0), JNum (Fin 0)], JArr [JNum (Fin 1), JNum (Fin 1)]]) =
        Inr (invalid ''Polygon must be an array of at least 3 [lat, lng] coordinates'')"
    by (simp add: validatePolygon_def)
  have ex2: "validatePolygon e
        (JArr [JArr [JNum (Fin 91), JNum (Fin 0)], JArr [JNum (Fin 0), JNum (Fin 0)],
               JArr [JNum (Fin 0), JNum (Fin 1)]]) =
        Inr (invalid ''Latitude must be between -90 and 90, longitude between -180 and 180'')"
    by (simp add: validatePolygon_def validateCoordinates_def)
  have c1: "(\<nexists>vs. p = JArr vs \<and> 3 \<le> length vs) \<longrightarrow> validatePolygon e p = Inr (invalid ''Polygon must be an array of at least 3 [lat, lng] coordinates'')"
    using few [of p] by blast
  have c2: "\<forall>vs. 3 \<le> length vs \<and> list_all valid_pair vs \<longrightarrow> validatePolygon e (JArr vs) = Inr valid"
    using all_valid by blast
  have c3: "\<forall>pre v post.
        3 \<le> length (pre @ v # post) \<and> list_all valid_pair pre \<and> \<not> pair_shaped v \<longrightarrow>
        validatePolygon e (JArr (pre @ v # post)) = Inr (invalid ''Each polygon coordinate must be a [lat, lng] array'')"
    using shape by blast
  have c4: "\<forall>pre v post.
        3 \<le> length (pre @ v # post) \<and> list_all valid_pair pre
        \<and> numeric_pair v \<and> \<not> valid_pair v \<longrightarrow>
        validatePolygon e (JArr (pre @ v # post)) = Inr (invalid ''Latitude must be between -90 and 90, longitude between -180 and 180'')"
    using range by blast
  show ?thesis
    by (intro conjI allI impI c1 c2 c3 c4 settled vp np ps ex1 ex2) assumption
qed

text \<open>
  The second vertex \<open>[0, 181]\<close> is out of range after the first passed, and its reason is
  returned before the malformed third vertex is looked at; a string is no polygon; three
  pairs on the bounds are valid.
\<close>

theorem validatePolygon_first_failing_vertex_witness:
  "list_all valid_pair [JArr [JNum (Fin 0), JNum (Fin 0)]]
   \<and> numeric_pair (JArr [JNum (Fin 0), JNum (Fin 181)])
   \<and> \<not> valid_pair (JArr [JNum (Fin 0), JNum (Fin 181)])
   \<and> validatePolygon sample_ecma
        (JArr [JArr [JNum (Fin 0), JNum (Fin 0)], JArr [JNum (Fin 0), JNum (Fin 181)],
               JArr [JNum (Fin 0)]]) =
        Inr (invalid ''Latitude must be between -90 and 90, longitude between -180 and 180'')
   \<and> validatePolygon sample_ecma (JStr ''polygon'') = Inr (invalid ''Polygon must be an array of at least 3 [lat, lng] coordinates'')
   \<and> validatePolygon sample_ecma
        (JArr [JArr [JNum (Fin 90), JNum (Fin (- 180))], JArr [JNum (Fin (- 90)), JNum (Fin 180)],
               JArr [JNum (Fin (377749 / 10000)), JNum (Fin (- (1224194 / 10000)))]]) =
        Inr valid"
proof -
  let ?pre = "[JArr [JNum (Fin 0), JNum (Fin 0)]]"
  let ?v = "JArr [JNum (Fin 0), JNum (Fin 181)]"
  let ?post = "[JArr [JNum (Fin 0)]]"
  let ?ok = "[JArr [JNum (Fin 90), JNum (Fin (- 180))], JArr [JNum (Fin (- 90)), JNum (Fin 180)],
               JArr [JNum (Fin (377749 / 10000)), JNum (Fin (- (1224194 / 10000)))]]"
  note t = validatePolygon_first_failing_vertex [of "JStr ''polygon''" sample_ecma]
  have 1: "list_all valid_pair ?pre" by simp
  have 2: "numeric_pair ?v" by simp
  have 3: "\<not> valid_pair ?v" by simp
  have l: "3 \<le> length (?pre @ ?v # ?post)" by simp
  note t4 = t [THEN conjunct2, THEN conjunct2, THEN conjunct2, THEN conjunct1, rule_format]
  from t4 [OF conjI [OF l conjI [OF 1 conjI [OF 2 3]]]]
  have 4: "validatePolygon sample_ecma
        (JArr [JArr [JNum (Fin 0), JNum (Fin 0)], JArr [JNum (Fin 0), JNum (Fin 181)],
               JArr [JNum (Fin 0)]]) =
        Inr (invalid ''Latitude must be between -90 and 90, longitude between -180 and 180'')"
    by simp
  have "\<nexists>vs. JStr ''polygon'' = JArr vs \<and> 3 \<le> length vs" by simp
  from t [THEN conjunct1, rule_format, OF this]
  have 5: "validatePolygon sample_ecma (JStr ''polygon'') = Inr (invalid ''Polygon must be an array of at least 3 [lat, lng] coordinates'')" .
  have "3 \<le> length ?ok \<and> list_all valid_pair ?ok" by simp
  from t [THEN conjunct2, THEN conjunct1, rule_format, OF this]
  have 6: "validatePolygon sample_ecma (JArr ?ok) = Inr valid" .
  show ?thesis by (intro conjI 1 2 3 4 5 6)
qed

text \<open>
  C6 as stated says that the result is invalid whenever some vertex is not
  coordinate-valid. With a second vertex whose latitude is the object
  \<open>{"toString": 1}\<close> nothing is returned: the comparison throws.
\<close>

theorem validatePolygon_second_vertex_throws:
  "\<not> valid_pair (JArr [JObj [(''toString'', JNum (Fin 1))], JNum (Fin 0)])
   \<and> validatePolygon sample_ecma
        (JArr [JArr [JNum (Fin 0), JNum (Fin 0)],
               JArr [JObj [(''toString'', JNum (Fin 1))], JNum (Fin 0)],
               JArr [JNum (Fin 0), JNum (Fin 1)]]) =
      Inl TypeError"
  by (simp add: validatePolygon_def validateCoordinates_def js_lt_def js_or_def)

text \<open>
  C9, as the code has it, for compared values that are primitives. \<open>validateCellHash\<close>
  returns a well-formed result (valid with no reason, or invalid with one reason) for
  every string. \<open>validateCoordinates\<close>, \<open>validateResolution\<close> and \<open>validateKValue\<close>
  return a well-formed result, and throw nothing, whenever their arguments are
  primitives: numbers (\<open>NaN\<close>, infinities and non-integers among them), strings,
  booleans, \<open>null\<close> or \<open>undefined\<close>. \<open>validatePolygon\<close> returns a well-formed result, and
  throws nothing, for every input in which each vertex that is a two-element array has
  primitive components: non-arrays, arrays of any length, and vertices of any other
  shape are among these inputs.
\<close>

theorem validators_return_on_primitives:
  "well_formed (validateCellHash h s)
   \<and> (primitive la \<and> primitive lo \<longrightarrow>
        (\<exists>r. validateCoordinates e la lo = Inr r \<and> well_formed r))
   \<and> (primitive v \<longrightarrow> (\<exists>r. validateResolution e v = Inr r \<and> well_formed r))
   \<and> (primitive v \<longrightarrow> (\<exists>r. validateKValue e v = Inr r \<and> well_formed r))
   \<and> (primitive_components p \<longrightarrow> (\<exists>r. validatePolygon e p = Inr r \<and> well_formed r))
   \<and> (\<forall>r. well_formed r \<longleftrightarrow> r = valid \<or> (\<exists>msg. r = invalid msg))
   \<and> (\<forall>x. primitive x \<longleftrightarrow> (\<nexists>xs. x = JArr xs) \<and> (\<nexists>ps. x = JObj ps))
   \<and> (\<forall>x. primitive_components x \<longleftrightarrow>
          (\<forall>vs y z. x = JArr vs \<and> JArr [y, z] \<in> set vs \<longrightarrow> primitive y \<and> primitive z))"
proof -
  have h1: "well_formed (validateCellHash h s)"
    by (simp add: validateCellHash_def)
  have h2: "primitive la \<and> primitive lo \<longrightarrow>
        (\<exists>r. validateCoordinates e la lo = Inr r \<and> well_formed r)"
    using validateCoordinates_primitive [of la lo e] by simp
  have h3: "primitive v \<longrightarrow> (\<exists>r. validateResolution e v = Inr r \<and> well_formed r)"
    using validateResolution_primitive [of v e] by simp
  have h4: "primitive v \<longrightarrow> (\<exists>r. validateKValue e v = Inr r \<and> well_formed r)"
    using validateKValue_primitive [of v e] by simp
  have h5: "primitive_components p \<longrightarrow> (\<exists>r. validatePolygon e p = Inr r \<and> well_formed r)"
  proof (cases p)
    case (JArr vs)
    with validatePolygon_loop_primitive [of vs e] show ?thesis
      by (auto simp: validatePolygon_def)
  qed (simp_all add: validatePolygon_def)
  have h6: "\<forall>r. well_formed r \<longleftrightarrow> r = valid \<or> (\<exists>msg. r = invalid msg)"
  proof
    fix r show "well_formed r \<longleftrightarrow> r = valid \<or> (\<exists>msg. r = invalid msg)"
      by (cases r) (auto simp: well_formed_def valid_def invalid_def)
  qed
  have h7: "\<forall>x. primitive x \<longleftrightarrow> (\<nexists>xs. x = JArr xs) \<and> (\<nexists>ps. x = JObj ps)"
  proof
    fix x show "primitive x \<longleftrightarrow> (\<nexists>xs. x = JArr xs) \<and> (\<nexists>ps. x = JObj ps)"
      by (cases x) simp_all
  qed
  have h8: "primitive_components x \<longleftrightarrow>
          (\<forall>vs y z. x = JArr vs \<and> JArr [y, z] \<in> set vs \<longrightarrow> primitive y \<and> primitive z)" for x
    by (cases x) (simp_all add: primitive_vertices_iff)
  show ?thesis
    by (intro conjI allI h1 h2 h3 h4 h5 h6 [rule_format] h7 [rule_format] h8)
qed

text \<open>
  Malformed inputs that are answered with a result: a \<open>NaN\<close> latitude with an
  \<open>undefined\<close> longitude, a boolean as resolution and as \<open>k\<close>, and a polygon of
  \<open>null\<close>, a one-element array of an object, and a pair of a boolean and \<open>null\<close>.
\<close>

theorem validators_return_on_primitives_witness:
  "well_formed (validateCellHash sample_h3 ''not a cell, and longer than fifteen'')
   \<and> (\<exists>r. validateCoordinates sample_ecma (JNum NaN) JUndefined = Inr r \<and> well_formed r)
   \<and> (\<exists>r. validateResolution sample_ecma (JBool True) = Inr r \<and> well_formed r)
   \<and> (\<exists>r. validateKValue sample_ecma (JBool True) = Inr r \<and> well_formed r)
   \<and> (\<exists>r. validatePolygon sample_ecma
          (JArr [JNull, JArr [JObj [(''lat'', JNum (Fin 0))]], JArr [JBool True, JNull]]) =
          Inr r
        \<and> well_formed r)"
proof -
  note t = validators_return_on_primitives
    [of sample_h3 "''not a cell, and longer than fifteen''" "JNum NaN" JUndefined
      sample_ecma "JBool True"
      "JArr [JNull, JArr [JObj [(''lat'', JNum (Fin 0))]], JArr [JBool True, JNull]]"]
  have c: "primitive (JNum NaN) \<and> primitive JUndefined" "primitive (JBool True)"
    "primitive_components
       (JArr [JNull, JArr [JObj [(''lat'', JNum (Fin 0))]], JArr [JBool True, JNull]])"
    by simp_all
  from t c show ?thesis by blast
qed

text \<open>
  C9 as stated says that no input makes a validator throw. The polygon
  \<open>[[{"toString": 1}, 0], [0, 0], [0, 1]]\<close>, which a request body can carry, does.
\<close>

theorem validatePolygon_first_vertex_throws:
  "validatePolygon sample_ecma
     (JArr [JArr [JObj [(''toString'', JNum (Fin 1))], JNum (Fin 0)],
            JArr [JNum (Fin 0), JNum (Fin 0)], JArr [JNum (Fin 0), JNum (Fin 1)]]) =
   Inl TypeError"
  by (simp add: validatePolygon_def validateCoordinates_def js_lt_def js_or_def)

end
